theory Spec2Isabelle
  imports Main "HOL-Library.Word" "HOL-Library.AList" "HOL-Library.Product_Lexorder"
begin

section \<open>Routes, next hops and forwarding entries\<close>

text \<open>
  Modelled from the spec: the classes \<open>NextHop\<close> and \<open>RouteNextHopEntry\<close> are not among
  the sources. Spec 3 and 4.3: a resolved next hop is a gateway, an egress interface and a
  weight; a candidate entry is an action (NEXTHOPS, DROP or TO_CPU), a next-hop set (only
  for NEXTHOPS) and an admin distance. The accessors keep the names the code calls them
  by. The type variable \<open>'a\<close> stands for \<open>folly::IPAddress\<close>, a class of an external
  library; the hardware layer only copies, prints and compares it. A \<open>RouteNextHopSet\<close> is
  a flat set: it is modelled by the sequence of its elements in iteration order, and
  \<open>size()\<close> is the length of that sequence.
\<close>

datatype RouteForwardAction = DROP | TO_CPU | NEXTHOPS

type_synonym AdminDistance = "8 word"
type_synonym ClientID = int
type_synonym RouterID = int
type_synonym InterfaceID = int

record 'a NextHop =
  addr :: 'a
  intf :: InterfaceID
  weight :: nat

type_synonym 'a RouteNextHopSet = "'a NextHop list"

record 'a RouteNextHopEntry =
  getAction :: RouteForwardAction
  getNextHopSet :: "'a RouteNextHopSet"
  getAdminDistance :: AdminDistance

text \<open>\<open>RouteNextHopEntry(nexthops, distance)\<close> and \<open>RouteNextHopEntry(action, distance)\<close>.\<close>

definition RouteNextHopEntry_nhops :: "'a RouteNextHopSet \<Rightarrow> AdminDistance \<Rightarrow> 'a RouteNextHopEntry" where
  "RouteNextHopEntry_nhops nhops ad =
     \<lparr>getAction = NEXTHOPS, getNextHopSet = nhops, getAdminDistance = ad\<rparr>"

definition RouteNextHopEntry_action :: "RouteForwardAction \<Rightarrow> AdminDistance \<Rightarrow> 'a RouteNextHopEntry" where
  "RouteNextHopEntry_action act ad =
     \<lparr>getAction = act, getNextHopSet = [], getAdminDistance = ad\<rparr>"

section \<open>folly::dynamic\<close>

text \<open>
  The JSON values the hardware tables are serialised to. An object is a list of
  key/value pairs without repeated keys; \<open>obj[k] = v\<close> replaces the value of an existing
  key or adds the pair.
\<close>

datatype dynamic =
    DBool bool
  | DInt int
  | DString string
  | DArray "dynamic list"
  | DObject "(string \<times> dynamic) list"

definition dyn_set :: "string \<Rightarrow> dynamic \<Rightarrow> (string \<times> dynamic) list \<Rightarrow> (string \<times> dynamic) list" where
  "dyn_set k v obj = AList.update k v obj"

definition dyn_get :: "dynamic \<Rightarrow> string \<Rightarrow> dynamic option" where
  "dyn_get d k = (case d of DObject obj \<Rightarrow> map_of obj k | _ \<Rightarrow> None)"

section \<open>BcmRoute\<close>

text \<open>The keys of BcmRoute.cpp's anonymous namespace.\<close>

definition kAction :: string where "kAction = ''action''"
definition kEcmp :: string where "kEcmp = ''ecmp''"
definition kMaskLen :: string where "kMaskLen = ''maskLen''"
definition kNetwork :: string where "kNetwork = ''network''"
definition kRoutes :: string where "kRoutes = ''routes''"

text \<open>
  Modelled from the spec: \<open>kEgressId\<close> and \<open>kEcmpEgressId\<close> are declared in
  \<open>fboss/agent/Constants.h\<close>, which is not among the sources. The spec names the two
  fields of a serialised route \<open>egressId\<close> and \<open>ecmpEgressId\<close>.
\<close>

definition kEgressId :: string where "kEgressId = ''egressId''"
definition kEcmpEgressId :: string where "kEcmpEgressId = ''ecmpEgressId''"

text \<open>
  A \<open>BcmRoute\<close>. \<open>opennsl_vrf_t\<close> and \<open>opennsl_if_t\<close> are C \<open>int\<close>s that are only stored
  and compared (the members \<open>vrf_\<close>, \<open>prefix_\<close>, \<open>len_\<close>, \<open>fwd_\<close>, \<open>added_\<close>, \<open>egressId_\<close>
  and \<open>nextHopHostReference_\<close> of the class). \<open>route_nextHopHostReference\<close> holds
  the key of the multipath next-hop entry the route references, if any.
\<close>

record 'a BcmRoute =
  route_vrf :: int
  route_prefix :: 'a
  route_len :: "8 word"
  route_fwd :: "'a RouteNextHopEntry"
  route_added :: bool
  route_egressId :: int
  route_nextHopHostReference :: "(int \<times> 'a RouteNextHopSet) option"

text \<open>
  \<open>BcmRoute::toFollyDynamic\<close>. \<open>str\<close> is \<open>folly::IPAddress::str\<close> and \<open>forwardActionStr\<close>
  the agent's printer of actions (RouteTypes.cpp); both are parameters.
\<close>

definition BcmRoute_toFollyDynamic ::
  "('a \<Rightarrow> string) \<Rightarrow> (RouteForwardAction \<Rightarrow> string) \<Rightarrow> 'a BcmRoute \<Rightarrow> dynamic" where
  "BcmRoute_toFollyDynamic str forwardActionStr r =
     (let route = [];
          route = dyn_set kNetwork (DString (str (route_prefix r))) route;
          route = dyn_set kMaskLen (DInt (uint (route_len r))) route;
          route = dyn_set kAction (DString (forwardActionStr (getAction (route_fwd r)))) route;
          route = (if length (getNextHopSet (route_fwd r)) > 1
                   then dyn_set kEcmpEgressId (DInt (route_egressId r)) (dyn_set kEcmp (DBool True) route)
                   else dyn_set kEgressId (DInt (route_egressId r)) (dyn_set kEcmp (DBool False) route))
      in DObject route)"

section \<open>The routing information base\<close>

text \<open>
  \<open>folly::IPAddress\<close> on the software side: an IPv4 address is its 32 bits, an IPv6
  address its 128 bits, both most significant byte first.
\<close>

datatype IPAddress = IPAddressV4 "32 word" | IPAddressV6 "128 word"

text \<open>
  Modelled from the spec: the class \<open>Route\<close> is not among the sources. Spec 3, RouteEntry:
  the prefix (network, mask), the candidate entry of each client that has one (a map from
  \<open>ClientID\<close>), and the cached resolved forwarding, \<open>None\<close> while the route is
  unresolved. \<open>getEntryForClient\<close>, \<open>isResolved\<close> and the forwarding information
  (\<open>getForwardInfo\<close>) are what the code reads of a route.
\<close>

record ('p, 'a) Route =
  prefix :: "'p \<times> 8 word"
  entries :: "(ClientID \<times> 'a RouteNextHopEntry) list"
  fwdState :: "'a RouteNextHopEntry option"

type_synonym RouteV4 = "(32 word, IPAddress) Route"
type_synonym RouteV6 = "(128 word, IPAddress) Route"



text \<open>The route table of one VRF: its id and the routes of each family in iteration order.\<close>

record RouteTable =
  getID :: RouterID
  getRibV4 :: "RouteV4 list"
  getRibV6 :: "RouteV6 list"

text \<open>
  Modelled from the spec: the enum \<open>StdClientIds\<close> and \<open>StdClientIds2ClientID\<close>, which casts
  it to a \<open>ClientID\<close>, are not among the sources. The spec names the clients BGP, STATIC,
  INTERFACE and LINK_LOCAL; they are four different client ids, and only that is used.
\<close>

datatype StdClientIds = BGPD | STATIC_ROUTE | INTERFACE_ROUTE | LINK_LOCAL_ROUTE

fun StdClientIds2ClientID :: "StdClientIds \<Rightarrow> ClientID" where
  "StdClientIds2ClientID BGPD = 0"
| "StdClientIds2ClientID STATIC_ROUTE = 1"
| "StdClientIds2ClientID INTERFACE_ROUTE = 2"
| "StdClientIds2ClientID LINK_LOCAL_ROUTE = 3"

text \<open>The static routes of the configuration (\<open>cfg::StaticRouteNoNextHops\<close>,
  \<open>cfg::StaticRouteWithNextHops\<close>): the prefix is the configuration's string.\<close>

record StaticRouteNoNextHops =
  sr_routerID :: "32 word"
  sr_prefix :: string

record StaticRouteWithNextHops =
  srn_routerID :: "32 word"
  srn_prefix :: string
  srn_nexthops :: "string list"

text \<open>
  What the route code takes from classes that are not among the sources, as parameters:
  \<^item> \<open>createNetwork\<close>: \<open>folly::IPAddress::createNetwork\<close>, the parser of a configured prefix
    (configurations are validated before they reach the RIB);
  \<^item> \<open>fromStaticRoute\<close>: \<open>RouteNextHopEntry::fromStaticRoute\<close>;
  \<^item> \<open>staticAdminDistance\<close>, \<open>connectedAdminDistance\<close>: the admin distances
    \<open>AdminDistance::STATIC_ROUTE\<close> and \<open>AdminDistance::DIRECTLY_CONNECTED\<close>;
  \<^item> \<open>resolve\<close>: the recursive resolution of one route against the tables of its VRF,
    \<open>None\<close> when the route stays unresolved.
\<close>

record RibDeps =
  createNetwork :: "string \<Rightarrow> IPAddress \<times> 8 word"
  fromStaticRoute :: "StaticRouteWithNextHops \<Rightarrow> IPAddress RouteNextHopEntry"
  staticAdminDistance :: AdminDistance
  connectedAdminDistance :: AdminDistance
  resolve :: "RouteTable \<Rightarrow> IPAddress \<times> 8 word \<Rightarrow> (ClientID \<times> IPAddress RouteNextHopEntry) list
              \<Rightarrow> IPAddress RouteNextHopEntry option"

subsection \<open>RouteEntry and RouteUpdater\<close>

text \<open>
  Modelled from the spec: the classes \<open>Route\<close> and \<open>RouteUpdater\<close> of \<open>fboss/agent/rib\<close>
  (and the \<open>RouteUpdater\<close> of the switch state, which the thrift handler drives with the
  same calls) are not among the sources. Spec 4.2: \<open>add_or_replace(client, candidate)\<close>
  inserts or replaces the per-client candidate and invalidates the cached resolution;
  \<open>remove(client)\<close> removes the per-client candidate.
\<close>

definition add_or_replace :: "ClientID \<Rightarrow> 'a RouteNextHopEntry \<Rightarrow> ('p, 'a) Route \<Rightarrow> ('p, 'a) Route" where
  "add_or_replace c e r = r\<lparr>entries := AList.update c e (entries r), fwdState := None\<rparr>"

definition remove_client :: "ClientID \<Rightarrow> ('p, 'a) Route \<Rightarrow> ('p, 'a) Route" where
  "remove_client c r = r\<lparr>entries := AList.delete c (entries r)\<rparr>"

text \<open>
  Modelled from the spec: spec 4.4, \<open>add(prefix, client, candidate)\<close> locates or creates
  the RouteEntry and calls \<open>add_or_replace\<close>.
\<close>

definition addRouteImpl ::
  "'p \<times> 8 word \<Rightarrow> ClientID \<Rightarrow> 'a RouteNextHopEntry \<Rightarrow> ('p, 'a) Route list \<Rightarrow> ('p, 'a) Route list" where
  "addRouteImpl p c e rs =
     (if \<exists>r \<in> set rs. prefix r = p
      then map (\<lambda>r. if prefix r = p then add_or_replace c e r else r) rs
      else rs @ [\<lparr>prefix = p, entries = [(c, e)], fwdState = None\<rparr>])"

text \<open>
  Modelled from the spec: spec 4.4, \<open>del(prefix, client)\<close> locates the RouteEntry, removes
  the client's candidate and removes the entry if it becomes empty.
\<close>

fun delRouteImpl :: "'p \<times> 8 word \<Rightarrow> ClientID \<Rightarrow> ('p, 'a) Route list \<Rightarrow> ('p, 'a) Route list" where
  "delRouteImpl p c [] = []"
| "delRouteImpl p c (r # rs) =
     (if prefix r = p
      then (let r' = remove_client c r
            in if entries r' = [] then delRouteImpl p c rs else r' # delRouteImpl p c rs)
      else r # delRouteImpl p c rs)"

text \<open>
  Modelled from the spec: spec 4.4, \<open>remove_all_for_client(client)\<close> iterates the map,
  drops that client's candidate everywhere and prunes emptied entries.
\<close>

fun removeAllRoutesForClientImpl :: "ClientID \<Rightarrow> ('p, 'a) Route list \<Rightarrow> ('p, 'a) Route list" where
  "removeAllRoutesForClientImpl c [] = []"
| "removeAllRoutesForClientImpl c (r # rs) =
     (let r' = remove_client c r
      in if entries r' = [] then removeAllRoutesForClientImpl c rs
         else r' # removeAllRoutesForClientImpl c rs)"

text \<open>The updater works on the pair of maps of one VRF and picks the map by the family
  of the network address.\<close>

definition addRoute ::
  "IPAddress \<Rightarrow> 8 word \<Rightarrow> ClientID \<Rightarrow> IPAddress RouteNextHopEntry \<Rightarrow> RouteTable \<Rightarrow> RouteTable" where
  "addRoute network msk c e rt =
     (case network of
        IPAddressV4 a \<Rightarrow> rt\<lparr>getRibV4 := addRouteImpl (a, msk) c e (getRibV4 rt)\<rparr>
      | IPAddressV6 a \<Rightarrow> rt\<lparr>getRibV6 := addRouteImpl (a, msk) c e (getRibV6 rt)\<rparr>)"

definition delRoute :: "IPAddress \<Rightarrow> 8 word \<Rightarrow> ClientID \<Rightarrow> RouteTable \<Rightarrow> RouteTable" where
  "delRoute network msk c rt =
     (case network of
        IPAddressV4 a \<Rightarrow> rt\<lparr>getRibV4 := delRouteImpl (a, msk) c (getRibV4 rt)\<rparr>
      | IPAddressV6 a \<Rightarrow> rt\<lparr>getRibV6 := delRouteImpl (a, msk) c (getRibV6 rt)\<rparr>)"

definition removeAllRoutesForClient :: "ClientID \<Rightarrow> RouteTable \<Rightarrow> RouteTable" where
  "removeAllRoutesForClient c rt =
     rt\<lparr>getRibV4 := removeAllRoutesForClientImpl c (getRibV4 rt),
        getRibV6 := removeAllRoutesForClientImpl c (getRibV6 rt)\<rparr>"

text \<open>
  Modelled from the spec: spec 4.4, \<open>add_interface_route(prefix, gateway, iface)\<close> installs
  a connected route under the INTERFACE client: a candidate whose single next hop is the
  interface's address on that interface.
\<close>

definition addInterfaceRoute ::
  "RibDeps \<Rightarrow> IPAddress \<Rightarrow> 8 word \<Rightarrow> IPAddress \<Rightarrow> InterfaceID \<Rightarrow> RouteTable \<Rightarrow> RouteTable" where
  "addInterfaceRoute D network msk endpoint interfaceID rt =
     addRoute network msk (StdClientIds2ClientID INTERFACE_ROUTE)
       (RouteNextHopEntry_nhops [\<lparr>addr = endpoint, intf = interfaceID, weight = 0\<rparr>]
          (connectedAdminDistance D)) rt"

text \<open>
  Modelled from the spec: spec 4.4, \<open>add_link_local_routes()\<close> ensures that fe80::/10 and
  169.254.0.0/16 exist with TO_CPU under the LINK_LOCAL client.
\<close>

definition kIPv6LinkLocal :: "IPAddress \<times> 8 word" where
  "kIPv6LinkLocal = (IPAddressV6 0xfe800000000000000000000000000000, 10)"

definition kIPv4LinkLocal :: "IPAddress \<times> 8 word" where
  "kIPv4LinkLocal = (IPAddressV4 0xa9fe0000, 16)"

definition addLinkLocalRoutes :: "RibDeps \<Rightarrow> RouteTable \<Rightarrow> RouteTable" where
  "addLinkLocalRoutes D rt =
     (let e = RouteNextHopEntry_action TO_CPU (connectedAdminDistance D);
          rt = addRoute (fst kIPv4LinkLocal) (snd kIPv4LinkLocal)
                 (StdClientIds2ClientID LINK_LOCAL_ROUTE) e rt
      in addRoute (fst kIPv6LinkLocal) (snd kIPv6LinkLocal)
           (StdClientIds2ClientID LINK_LOCAL_ROUTE) e rt)"

text \<open>
  Modelled from the spec: spec 4.4, \<open>commit()\<close> runs the recursive resolution over both
  maps; a route whose resolution fails is marked unresolved, which does not fail the
  transaction. The resolution of one route is the parameter \<open>resolve\<close>; every route is
  resolved against the tables as they are when the updates are done.
\<close>

definition updateDone :: "RibDeps \<Rightarrow> RouteTable \<Rightarrow> RouteTable" where
  "updateDone D rt =
     rt\<lparr>getRibV4 := map (\<lambda>r. r\<lparr>fwdState :=
                        resolve D rt (IPAddressV4 (fst (prefix r)), snd (prefix r)) (entries r)\<rparr>)
                      (getRibV4 rt),
        getRibV6 := map (\<lambda>r. r\<lparr>fwdState :=
                        resolve D rt (IPAddressV6 (fst (prefix r)), snd (prefix r)) (entries r)\<rparr>)
                      (getRibV6 rt)\<rparr>"

text \<open>
  Modelled from the spec: spec 4.6, the FIB builder (\<open>ForwardingInformationBaseUpdater\<close>,
  not among the sources) copies the prefix and the resolved forwarding entry (action and
  next hops) of every resolved route and skips the unresolved ones.
\<close>

fun fibOf :: "('p, 'a) Route list \<Rightarrow> (('p \<times> 8 word) \<times> 'a RouteNextHopEntry) list" where
  "fibOf [] = []"
| "fibOf (r # rs) =
     (case fwdState r of None \<Rightarrow> fibOf rs | Some fwdInfo \<Rightarrow> (prefix r, fwdInfo) # fibOf rs)"

record ForwardingInformationBaseContainer =
  fibV4 :: "((32 word \<times> 8 word) \<times> IPAddress RouteNextHopEntry) list"
  fibV6 :: "((128 word \<times> 8 word) \<times> IPAddress RouteNextHopEntry) list"

definition ForwardingInformationBaseUpdater :: "RouteTable \<Rightarrow> ForwardingInformationBaseContainer" where
  "ForwardingInformationBaseUpdater rt = \<lparr>fibV4 = fibOf (getRibV4 rt), fibV6 = fibOf (getRibV6 rt)\<rparr>"

subsection \<open>Candidates of a table\<close>

text \<open>
  \<open>hasCandidate rs p c e\<close>: in the routes \<open>rs\<close>, the route of prefix \<open>p\<close> has the
  candidate \<open>e\<close> of client \<open>c\<close>. \<open>tableCandidate\<close> reads it from the table of the
  address's family.
\<close>

definition hasCandidate ::
  "('p, 'a) Route list \<Rightarrow> 'p \<times> 8 word \<Rightarrow> ClientID \<Rightarrow> 'a RouteNextHopEntry \<Rightarrow> bool" where
  "hasCandidate rs p c e = (\<exists>r \<in> set rs. prefix r = p \<and> map_of (entries r) c = Some e)"

definition tableCandidate ::
  "RouteTable \<Rightarrow> IPAddress \<times> 8 word \<Rightarrow> ClientID \<Rightarrow> IPAddress RouteNextHopEntry \<Rightarrow> bool" where
  "tableCandidate rt p c e =
     (case fst p of
        IPAddressV4 a \<Rightarrow> hasCandidate (getRibV4 rt) (a, snd p) c e
      | IPAddressV6 a \<Rightarrow> hasCandidate (getRibV6 rt) (a, snd p) c e)"

subsection \<open>ConfigApplier\<close>

text \<open>
  The members of a \<open>ConfigApplier\<close>: the VRF, its pair of route maps (here the
  \<open>RouteTable\<close> \<open>ca_tables\<close>), and the ranges of the new configuration's directly
  connected and static routes. A directly connected route is
  (network, (interface, endpoint)).
\<close>

record ConfigApplier =
  ca_vrf :: RouterID
  ca_tables :: RouteTable
  directlyConnectedRouteRange :: "((IPAddress \<times> 8 word) \<times> (InterfaceID \<times> IPAddress)) list"
  staticCpuRouteRange :: "StaticRouteNoNextHops list"
  staticDropRouteRange :: "StaticRouteNoNextHops list"
  staticRouteRange :: "StaticRouteWithNextHops list"

text \<open>
  Modelled from the spec: \<open>RouteNextHopEntry::createToCpu\<close> and \<open>createDrop\<close> are not among
  the sources. Spec 4.7 has the static routes to the CPU and to null: the candidate of
  such a route has the action TO_CPU or DROP, no next hops and the admin distance of
  static routes.
\<close>

definition createToCpu :: "RibDeps \<Rightarrow> IPAddress RouteNextHopEntry" where
  "createToCpu D = RouteNextHopEntry_action TO_CPU (staticAdminDistance D)"

definition createDrop :: "RibDeps \<Rightarrow> IPAddress RouteNextHopEntry" where
  "createDrop D = RouteNextHopEntry_action DROP (staticAdminDistance D)"

text \<open>The three loops over the static routes: a route of another VRF is skipped
  (\<open>RouterID(staticRoute.routerID) != vrf_\<close>, the \<open>int32_t\<close> read as a signed number).\<close>

fun addStaticNoNextHops ::
  "RibDeps \<Rightarrow> RouterID \<Rightarrow> IPAddress RouteNextHopEntry \<Rightarrow> StaticRouteNoNextHops list \<Rightarrow> RouteTable \<Rightarrow> RouteTable" where
  "addStaticNoNextHops D vrf e [] updater = updater"
| "addStaticNoNextHops D vrf e (staticRoute # rest) updater =
     (if sint (sr_routerID staticRoute) \<noteq> vrf then addStaticNoNextHops D vrf e rest updater
      else (let pfx = createNetwork D (sr_prefix staticRoute)
            in addStaticNoNextHops D vrf e rest
                 (addRoute (fst pfx) (snd pfx) (StdClientIds2ClientID STATIC_ROUTE) e updater)))"

fun addStaticWithNextHops ::
  "RibDeps \<Rightarrow> RouterID \<Rightarrow> StaticRouteWithNextHops list \<Rightarrow> RouteTable \<Rightarrow> RouteTable" where
  "addStaticWithNextHops D vrf [] updater = updater"
| "addStaticWithNextHops D vrf (staticRoute # rest) updater =
     (if sint (srn_routerID staticRoute) \<noteq> vrf then addStaticWithNextHops D vrf rest updater
      else (let pfx = createNetwork D (srn_prefix staticRoute)
            in addStaticWithNextHops D vrf rest
                 (addRoute (fst pfx) (snd pfx) (StdClientIds2ClientID STATIC_ROUTE)
                    (fromStaticRoute D staticRoute) updater)))"

text \<open>\<open>ConfigApplier::addInterfaceRoutes\<close>.\<close>

fun addInterfaceRoutes ::
  "RibDeps \<Rightarrow> ((IPAddress \<times> 8 word) \<times> (InterfaceID \<times> IPAddress)) list \<Rightarrow> RouteTable \<Rightarrow> RouteTable" where
  "addInterfaceRoutes D [] updater = updater"
| "addInterfaceRoutes D (directlyConnectedRoute # rest) updater =
     (let network = fst directlyConnectedRoute;
          interfaceID = fst (snd directlyConnectedRoute);
          endpoint = snd (snd directlyConnectedRoute)
      in addInterfaceRoutes D rest
           (addInterfaceRoute D (fst network) (snd network) endpoint interfaceID updater))"

text \<open>
  \<open>ConfigApplier::updateRibAndFib\<close>: the new tables of the VRF and the FIB handed to the
  next switch state.
\<close>

definition updateRib :: "RibDeps \<Rightarrow> ConfigApplier \<Rightarrow> RouteTable" where
  "updateRib D ca =
     (let updater = ca_tables ca;
          updater = removeAllRoutesForClient (StdClientIds2ClientID STATIC_ROUTE) updater;
          updater = addStaticNoNextHops D (ca_vrf ca) (createToCpu D) (staticCpuRouteRange ca) updater;
          updater = addStaticNoNextHops D (ca_vrf ca) (createDrop D) (staticDropRouteRange ca) updater;
          updater = addStaticWithNextHops D (ca_vrf ca) (staticRouteRange ca) updater;
          updater = removeAllRoutesForClient (StdClientIds2ClientID INTERFACE_ROUTE) updater;
          updater = addInterfaceRoutes D (directlyConnectedRouteRange ca) updater;
          updater = addLinkLocalRoutes D updater
      in updateDone D updater)"

definition updateRibAndFib ::
  "RibDeps \<Rightarrow> ConfigApplier \<Rightarrow> RouteTable \<times> ForwardingInformationBaseContainer" where
  "updateRibAndFib D ca = (let rt = updateRib D ca in (rt, ForwardingInformationBaseUpdater rt))"



text \<open>
  A list of (prefix, candidate) pairs offers the candidate \<open>e\<close> for the prefix \<open>p\<close> when
  the last pair of that prefix carries \<open>e\<close>: a later add replaces an earlier one.
\<close>

definition offers :: "('k \<times> 'v) list \<Rightarrow> 'k \<Rightarrow> 'v \<Rightarrow> bool" where
  "offers kvs p e = (map_of (rev kvs) p = Some e)"

subsection \<open>RoutingInformationBase\<close>

text \<open>
  Modelled from the spec: the class \<open>RoutingInformationBase\<close> is not among the sources.
  Spec 4.7, \<open>reconfigure\<close>: replace the VRF set and, for each VRF, replace all interface
  and static routes; new VRFs start with empty tables, VRFs that are not in the new
  configuration are dropped with their routes. The VRF set is the set of VRFs of the
  configuration's interface routes.
\<close>

type_synonym RoutingInformationBase = "RouteTable list"

definition getRouteTableIf :: "RouteTable list \<Rightarrow> RouterID \<Rightarrow> RouteTable option" where
  "getRouteTableIf tables vrf = find (\<lambda>rt. getID rt = vrf) tables"




text \<open>Adding a list of (prefix, candidate) pairs for one client, in order.\<close>

definition addRoutes ::
  "ClientID \<Rightarrow> ((IPAddress \<times> 8 word) \<times> IPAddress RouteNextHopEntry) list \<Rightarrow> RouteTable \<Rightarrow> RouteTable" where
  "addRoutes c kvs rt = fold (\<lambda>kv. addRoute (fst (fst kv)) (snd (fst kv)) c (snd kv)) kvs rt"

subsection \<open>A small configuration\<close>

text \<open>
  A RIB with one VRF that holds a BGP host route, and a configuration for that VRF with
  one interface (10.0.0.1/24 on interface 1) and one static route to null.
\<close>

definition deps0 :: RibDeps where
  "deps0 =
     \<lparr>createNetwork = (\<lambda>s. if s = ''10.1.0.0/16'' then (IPAddressV4 0x0a010000, 16)
                           else (IPAddressV4 0, 0)),
      fromStaticRoute = (\<lambda>s. RouteNextHopEntry_nhops
                           [\<lparr>addr = IPAddressV4 0x0a000002, intf = 1, weight = 0\<rparr>] 1),
      staticAdminDistance = 1,
      connectedAdminDistance = 0,
      resolve = (\<lambda>rt p es. None)\<rparr>"

definition bgpEntry0 :: "IPAddress RouteNextHopEntry" where
  "bgpEntry0 = RouteNextHopEntry_nhops [\<lparr>addr = IPAddressV4 0x0a000002, intf = 1, weight = 0\<rparr>] 20"

definition table0 :: RouteTable where
  "table0 =
     \<lparr>getID = 0,
      getRibV4 = [\<lparr>prefix = (0x08080808, 32), entries = [(0, bgpEntry0)], fwdState = None\<rparr>],
      getRibV6 = []\<rparr>"


section \<open>The hardware route table\<close>

subsection \<open>BcmMultiPathNextHop\<close>

text \<open>
  The errors of the hardware layer: a failed \<open>CHECK\<close>, a failed SDK call
  (\<open>bcmCheckError\<close>), the deletion of a route the table does not have, and \<open>front()\<close> of
  an empty vector.
\<close>

datatype BcmError = CheckFailed | SdkFailure | RouteNotFound | EmptyNextHops

text \<open>
  A \<open>BcmMultiPathNextHop\<close>: the VRF, the next-hop set it was made for, the egress ids of
  the \<open>BcmNextHop\<close> objects of its next hops in order (\<open>nexthops_\<close>), and the paths of
  its \<open>BcmEcmpEgress\<close> object when it has one (\<open>ecmpEgress_\<close>; the paths are a multiset
  of egress ids, here in the order of insertion).
\<close>

record 'a BcmMultiPathNextHop =
  mp_vrf :: int
  mp_fwd :: "'a RouteNextHopSet"
  mp_nexthops :: "int list"
  mp_ecmpEgress :: "int list option"

type_synonym 'a BcmMultiPathNextHopKey = "int \<times> 'a RouteNextHopSet"

text \<open>
  What the hardware layer takes from code that is not among the sources, as parameters:
  \<^item> \<open>nextHopEgressId\<close>: the egress id of the \<open>BcmNextHop\<close> that the next-hop tables hand
    out for a next hop of a VRF (\<open>refOrEmplaceNextHop\<close>, programmed to the CPU if need be);
  \<^item> \<open>getEcmpEgressId\<close>: \<open>BcmMultiPathNextHop::getEcmpEgressId\<close>, declared in the header;
  \<^item> \<open>sdkRouteAdd\<close>: whether the SDK accepts the route (VRF, prefix, length) with an
    egress id, in the host table or the LPM table;
  \<^item> \<open>normalizedNextHops\<close>: \<open>RouteNextHopEntry::normalizedNextHops\<close>;
  \<^item> \<open>initialFwd\<close>, \<open>initialEgressId\<close>: the member initialisers of \<open>fwd_\<close> and
    \<open>egressId_\<close> in the header of \<open>BcmRoute\<close>.
\<close>

record 'a BcmDeps =
  nextHopEgressId :: "int \<Rightarrow> 'a NextHop \<Rightarrow> int"
  getEcmpEgressId :: "'a BcmMultiPathNextHop \<Rightarrow> int"
  sdkRouteAdd :: "int \<Rightarrow> 'a \<Rightarrow> 8 word \<Rightarrow> int \<Rightarrow> bool"
  normalizedNextHops :: "'a RouteNextHopEntry \<Rightarrow> 'a RouteNextHopSet"
  initialFwd :: "'a RouteNextHopEntry"
  initialEgressId :: int

text \<open>
  The loop of the constructor over the next hops: every next hop adds its egress id to
  the paths as often as its weight says, and its \<open>BcmNextHop\<close> to \<open>nexthops\<close>.
\<close>

fun collectPaths ::
  "'a BcmDeps \<Rightarrow> int \<Rightarrow> 'a RouteNextHopSet \<Rightarrow> int list \<times> int list \<Rightarrow> int list \<times> int list" where
  "collectPaths D vrf [] (paths, nexthops) = (paths, nexthops)"
| "collectPaths D vrf (nhop # fwd) (paths, nexthops) =
     collectPaths D vrf fwd
       (paths @ replicate (weight nhop) (nextHopEgressId D vrf nhop),
        nexthops @ [nextHopEgressId D vrf nhop])"

text \<open>The constructor \<open>BcmMultiPathNextHop::BcmMultiPathNextHop\<close>.\<close>

definition BcmMultiPathNextHop_new ::
  "'a BcmDeps \<Rightarrow> 'a BcmMultiPathNextHopKey \<Rightarrow> BcmError + 'a BcmMultiPathNextHop" where
  "BcmMultiPathNextHop_new D key =
     (let fwd = snd key
      in if \<not> length fwd > 0 then Inl CheckFailed
         else (let (paths, nexthops) = collectPaths D (fst key) fwd ([], [])
               in Inr \<lparr>mp_vrf = fst key, mp_fwd = fwd, mp_nexthops = nexthops,
                       mp_ecmpEgress = (if length paths > 1 then Some paths else None)\<rparr>))"

text \<open>\<open>BcmMultiPathNextHop::getEgressId\<close>; \<open>None\<close> is \<open>front()\<close> of an empty vector.\<close>

definition getEgressId :: "'a BcmDeps \<Rightarrow> 'a BcmMultiPathNextHop \<Rightarrow> int option" where
  "getEgressId D mp =
     (if length (mp_nexthops mp) > 1 then Some (getEcmpEgressId D mp)
      else (case mp_nexthops mp of [] \<Rightarrow> None | e # es \<Rightarrow> Some e))"

text \<open>
  Modelled from the spec: the table \<open>BcmMultiPathNextHopTable\<close> with
  \<open>referenceOrEmplaceNextHop\<close> is not among the sources. Spec 4.5 and 9: a central table
  keyed by the next-hop set, whose values are reference counted and handed out to the
  routes; an entry is removed when its count drops to zero. An entry is the object and
  the number of references to it.
\<close>

type_synonym 'a BcmMultiPathNextHopTable =
  "('a BcmMultiPathNextHopKey \<times> ('a BcmMultiPathNextHop \<times> nat)) list"

definition referenceOrEmplaceNextHop ::
  "'a BcmDeps \<Rightarrow> 'a BcmMultiPathNextHopKey \<Rightarrow> 'a BcmMultiPathNextHopTable
     \<Rightarrow> BcmError + ('a BcmMultiPathNextHop \<times> 'a BcmMultiPathNextHopTable)" where
  "referenceOrEmplaceNextHop D key tbl =
     (case map_of tbl key of
        Some (mp, n) \<Rightarrow> Inr (mp, AList.update key (mp, Suc n) tbl)
      | None \<Rightarrow>
          (case BcmMultiPathNextHop_new D key of
             Inl e \<Rightarrow> Inl e
           | Inr mp \<Rightarrow> Inr (mp, AList.update key (mp, 1) tbl)))"

definition releaseNextHop ::
  "'a BcmMultiPathNextHopKey \<Rightarrow> 'a BcmMultiPathNextHopTable \<Rightarrow> 'a BcmMultiPathNextHopTable" where
  "releaseNextHop key tbl =
     (case map_of tbl key of
        None \<Rightarrow> tbl
      | Some (mp, n) \<Rightarrow> if n \<le> 1 then AList.delete key tbl else AList.update key (mp, n - 1) tbl)"

text \<open>
  A table is in order when every entry is the object the constructor makes for its key
  and is referenced at least once.
\<close>

definition tableOk :: "'a BcmDeps \<Rightarrow> 'a BcmMultiPathNextHopTable \<Rightarrow> bool" where
  "tableOk D tbl =
     (\<forall>entry \<in> set tbl.
        BcmMultiPathNextHop_new D (fst entry) = Inr (fst (snd entry)) \<and> 1 \<le> snd (snd entry))"

subsection \<open>BcmRoute::program\<close>

text \<open>The switch as far as \<open>program\<close> uses it.\<close>

record 'a BcmSwitch =
  getDropEgressId :: int
  getToCPUEgressId :: int
  multiPathNextHopTable :: "'a BcmMultiPathNextHopTable"

text \<open>
  \<open>BcmRoute::program\<close>, on the switch and the route. The egress id is the drop egress,
  the CPU egress, or that of the multipath next hop referenced for the next-hop set.
  Then the route goes to the hardware (host table or LPM table: \<open>sdkRouteAdd\<close>); an
  exception drops the new reference. At the end the route takes the new reference and
  lets go of the one it held.
\<close>

definition program ::
  "'a BcmDeps \<Rightarrow> 'a RouteNextHopEntry \<Rightarrow> 'a BcmSwitch \<times> 'a BcmRoute
     \<Rightarrow> BcmError + ('a BcmSwitch \<times> 'a BcmRoute)" where
  "program D fwd hr =
     (let hw = fst hr; r = snd hr
      in if route_added r \<and> fwd = route_fwd r then Inr (hw, r)
         else
           (case (case getAction fwd of
                    DROP \<Rightarrow> Inr (None, getDropEgressId hw, hw)
                  | TO_CPU \<Rightarrow> Inr (None, getToCPUEgressId hw, hw)
                  | NEXTHOPS \<Rightarrow>
                      (if \<not> length (getNextHopSet fwd) > 0 then Inl CheckFailed
                       else
                         (case referenceOrEmplaceNextHop D (route_vrf r, getNextHopSet fwd)
                                 (multiPathNextHopTable hw) of
                            Inl e \<Rightarrow> Inl e
                          | Inr (mp, tbl) \<Rightarrow>
                              (case getEgressId D mp of
                                 None \<Rightarrow> Inl EmptyNextHops
                               | Some egressId \<Rightarrow>
                                   Inr (Some (route_vrf r, getNextHopSet fwd), egressId,
                                        hw\<lparr>multiPathNextHopTable := tbl\<rparr>))))) of
              Inl e \<Rightarrow> Inl e
            | Inr (nexthopReference, egressId, hw) \<Rightarrow>
                if \<not> sdkRouteAdd D (route_vrf r) (route_prefix r) (route_len r) egressId
                then Inl SdkFailure
                else
                  (let hw = (case route_nextHopHostReference r of
                               None \<Rightarrow> hw
                             | Some old \<Rightarrow>
                                 hw\<lparr>multiPathNextHopTable :=
                                      releaseNextHop old (multiPathNextHopTable hw)\<rparr>)
                   in Inr (hw, r\<lparr>route_fwd := fwd, route_added := True, route_egressId := egressId,
                                 route_nextHopHostReference := nexthopReference\<rparr>))))"

subsection \<open>BcmRouteTable\<close>

text \<open>
  The key of the route table and its order, \<open>BcmRouteTable::Key::operator<\<close>: by VRF,
  then by mask, then by network. The order of \<open>folly::IPAddress\<close> is the order of the
  type \<open>'a\<close>.
\<close>

record 'a Key =
  key_network :: 'a
  key_mask :: "8 word"
  key_vrf :: int

definition Key_less :: "('a :: linorder) Key \<Rightarrow> 'a Key \<Rightarrow> bool" where
  "Key_less k k2 =
     (if key_vrf k < key_vrf k2 then True
      else if key_vrf k > key_vrf k2 then False
      else if key_mask k < key_mask k2 then True
      else if key_mask k > key_mask k2 then False
      else key_network k < key_network k2)"

text \<open>
  The map \<open>fib_\<close> from keys to routes, ordered by \<open>Key_less\<close>: the sequence of its
  entries in iteration order. \<open>fib_emplace\<close> inserts a route for a key the map does not
  have, at the key's place, and tells whether it did.
\<close>

fun fib_emplace ::
  "('a :: linorder) Key \<Rightarrow> 'v \<Rightarrow> ('a Key \<times> 'v) list \<Rightarrow> ('a Key \<times> 'v) list \<times> bool" where
  "fib_emplace k v [] = ([(k, v)], True)"
| "fib_emplace k v ((k', v') # rest) =
     (if Key_less k k' then ((k, v) # (k', v') # rest, True)
      else if Key_less k' k then (let (rest', inserted) = fib_emplace k v rest
                                  in ((k', v') # rest', inserted))
      else ((k', v') # rest, False))"

text \<open>The constructor of \<open>BcmRoute\<close>.\<close>

definition BcmRoute_new :: "'a BcmDeps \<Rightarrow> int \<Rightarrow> 'a \<Rightarrow> 8 word \<Rightarrow> 'a BcmRoute" where
  "BcmRoute_new D vrf a len =
     \<lparr>route_vrf = vrf, route_prefix = a, route_len = len, route_fwd = initialFwd D,
      route_added = False, route_egressId = initialEgressId D,
      route_nextHopHostReference = None\<rparr>"

text \<open>
  \<open>BcmRouteTable::addRoute\<close> and \<open>deleteRoute\<close> are templates over the route type, with
  one instance for each family. What they read of the route is its prefix, with the
  network turned into a \<open>folly::IPAddress\<close> (\<open>conv\<close>), and its forwarding information,
  which is there when the route is resolved. \<open>addRouteAt\<close> and \<open>deleteRouteAt\<close> are the
  bodies of the templates on these.
\<close>

definition BcmRouteTable_addRouteAt ::
  "('a :: linorder) BcmDeps \<Rightarrow> int \<Rightarrow> 'a \<Rightarrow> 8 word \<Rightarrow> 'a RouteNextHopEntry option
     \<Rightarrow> 'a BcmSwitch \<times> ('a Key \<times> 'a BcmRoute) list
     \<Rightarrow> BcmError + ('a BcmSwitch \<times> ('a Key \<times> 'a BcmRoute) list)" where
  "BcmRouteTable_addRouteAt D vrf network msk forwardInfo hf =
     (let hw = fst hf;
          key = \<lparr>key_network = network, key_mask = msk, key_vrf = vrf\<rparr>;
          fib = fst (fib_emplace key (BcmRoute_new D vrf network msk) (snd hf))
      in case forwardInfo of
           None \<Rightarrow> Inl CheckFailed
         | Some fwdInfo \<Rightarrow>
             (let fwd = (if getAction fwdInfo = NEXTHOPS
                         then RouteNextHopEntry_nhops (normalizedNextHops D fwdInfo)
                                (getAdminDistance fwdInfo)
                         else fwdInfo)
              in case map_of fib key of
                   None \<Rightarrow> Inl RouteNotFound
                 | Some r \<Rightarrow>
                     (case program D fwd (hw, r) of
                        Inl e \<Rightarrow> Inl e
                      | Inr (hw', r') \<Rightarrow> Inr (hw', AList.update key r' fib))))"

definition BcmRouteTable_addRoute ::
  "('a :: linorder) BcmDeps \<Rightarrow> ('p \<Rightarrow> 'a) \<Rightarrow> int \<Rightarrow> ('p, 'a) Route
     \<Rightarrow> 'a BcmSwitch \<times> ('a Key \<times> 'a BcmRoute) list
     \<Rightarrow> BcmError + ('a BcmSwitch \<times> ('a Key \<times> 'a BcmRoute) list)" where
  "BcmRouteTable_addRoute D conv vrf route hf =
     BcmRouteTable_addRouteAt D vrf (conv (fst (prefix route))) (snd (prefix route)) (fwdState route) hf"

text \<open>
  Erasing the entry destroys the route, which lets go of its multipath next hop.
\<close>

definition BcmRouteTable_deleteRouteAt ::
  "int \<Rightarrow> 'a \<Rightarrow> 8 word
     \<Rightarrow> 'a BcmSwitch \<times> ('a Key \<times> 'a BcmRoute) list
     \<Rightarrow> BcmError + ('a BcmSwitch \<times> ('a Key \<times> 'a BcmRoute) list)" where
  "BcmRouteTable_deleteRouteAt vrf network msk hf =
     (let hw = fst hf;
          key = \<lparr>key_network = network, key_mask = msk, key_vrf = vrf\<rparr>
      in case map_of (snd hf) key of
           None \<Rightarrow> Inl RouteNotFound
         | Some r \<Rightarrow>
             Inr (case route_nextHopHostReference r of
                    None \<Rightarrow> hw
                  | Some old \<Rightarrow>
                      hw\<lparr>multiPathNextHopTable := releaseNextHop old (multiPathNextHopTable hw)\<rparr>,
                  AList.delete key (snd hf)))"

definition BcmRouteTable_deleteRoute ::
  "('p \<Rightarrow> 'a) \<Rightarrow> int \<Rightarrow> ('p, 'a) Route
     \<Rightarrow> 'a BcmSwitch \<times> ('a Key \<times> 'a BcmRoute) list
     \<Rightarrow> BcmError + ('a BcmSwitch \<times> ('a Key \<times> 'a BcmRoute) list)" where
  "BcmRouteTable_deleteRoute conv vrf route hf =
     BcmRouteTable_deleteRouteAt vrf (conv (fst (prefix route))) (snd (prefix route)) hf"

text \<open>\<open>BcmRouteTable::toFollyDynamic\<close>.\<close>

definition BcmRouteTable_toFollyDynamic ::
  "('a \<Rightarrow> string) \<Rightarrow> (RouteForwardAction \<Rightarrow> string) \<Rightarrow> ('a Key \<times> 'a BcmRoute) list \<Rightarrow> dynamic" where
  "BcmRouteTable_toFollyDynamic str forwardActionStr fib =
     (let routesJson = map (\<lambda>route. BcmRoute_toFollyDynamic str forwardActionStr (snd route)) fib
      in DObject (dyn_set kRoutes (DArray routesJson) []))"

text \<open>
  The route tables that can come about: the empty table, and what adding or deleting a
  route makes of a table that can come about.
\<close>

inductive reachableTable ::
  "('a :: linorder) BcmDeps \<Rightarrow> 'a BcmSwitch \<times> ('a Key \<times> 'a BcmRoute) list \<Rightarrow> bool"
  for D :: "'a BcmDeps" where
  start: "reachableTable D (hw, [])"
| add: "reachableTable D hf \<Longrightarrow> BcmRouteTable_addRouteAt D vrf network msk forwardInfo hf = Inr hf'
        \<Longrightarrow> reachableTable D hf'"
| delete: "reachableTable D hf \<Longrightarrow> BcmRouteTable_deleteRouteAt vrf network msk hf = Inr hf'
        \<Longrightarrow> reachableTable D hf'"

text \<open>The key under which the table holds a route.\<close>

definition keyOf :: "'a BcmRoute \<Rightarrow> 'a Key" where
  "keyOf r = \<lparr>key_network = route_prefix r, key_mask = route_len r, key_vrf = route_vrf r\<rparr>"

text \<open>The key as a triple in the order of its comparison.\<close>

definition keyTriple :: "'a Key \<Rightarrow> int \<times> 8 word \<times> 'a" where
  "keyTriple k = (key_vrf k, key_mask k, key_network k)"

subsection \<open>A small hardware table\<close>

text \<open>
  IPv4 addresses as 32 bit numbers in host order; a switch without multipath next hops;
  the resolved routes 10.0.0.0/24 with one next hop, 9.0.0.0/25 to null and 10.2.0.0/16
  with two next hops.
\<close>

definition bdeps0 :: "32 word BcmDeps" where
  "bdeps0 =
     \<lparr>nextHopEgressId = (\<lambda>vrf nhop. 100000 + intf nhop),
      getEcmpEgressId = (\<lambda>mp. case mp_ecmpEgress mp of Some paths \<Rightarrow> 200256 | None \<Rightarrow> -1),
      sdkRouteAdd = (\<lambda>vrf a len egressId. True),
      normalizedNextHops = (\<lambda>fwd. map (\<lambda>nhop. nhop\<lparr>weight := 1\<rparr>) (getNextHopSet fwd)),
      initialFwd = RouteNextHopEntry_action DROP 255,
      initialEgressId = -1\<rparr>"

definition hw0 :: "32 word BcmSwitch" where
  "hw0 = \<lparr>getDropEgressId = 100000, getToCPUEgressId = 100001, multiPathNextHopTable = []\<rparr>"

definition hop1 :: "32 word NextHop" where
  "hop1 = \<lparr>addr = 0x0a000002, intf = 1, weight = 0\<rparr>"

definition hop2 :: "32 word NextHop" where
  "hop2 = \<lparr>addr = 0x0a000102, intf = 2, weight = 0\<rparr>"

definition hwRoute10 :: "(32 word, 32 word) Route" where
  "hwRoute10 =
     \<lparr>prefix = (0x0a000000, 24), entries = [(0, RouteNextHopEntry_nhops [hop1] 20)],
      fwdState = Some (RouteNextHopEntry_nhops [hop1] 20)\<rparr>"

definition hwRoute9 :: "(32 word, 32 word) Route" where
  "hwRoute9 =
     \<lparr>prefix = (0x09000000, 25), entries = [(1, RouteNextHopEntry_action DROP 1)],
      fwdState = Some (RouteNextHopEntry_action DROP 1)\<rparr>"

definition hwRoute102 :: "(32 word, 32 word) Route" where
  "hwRoute102 =
     \<lparr>prefix = (0x0a020000, 16), entries = [(0, RouteNextHopEntry_nhops [hop1, hop2] 20)],
      fwdState = Some (RouteNextHopEntry_nhops [hop1, hop2] 20)\<rparr>"

definition str0 :: "32 word \<Rightarrow> string" where
  "str0 a = (if a = 0x0a000000 then ''10.0.0.0'' else if a = 0x09000000 then ''9.0.0.0''
             else ''10.2.0.0'')"

definition forwardActionStr0 :: "RouteForwardAction \<Rightarrow> string" where
  "forwardActionStr0 act = (case act of DROP \<Rightarrow> ''Drop'' | TO_CPU \<Rightarrow> ''ToCPU'' | NEXTHOPS \<Rightarrow> ''Nexthops'')"

text \<open>The entries of a route table are in order: ascending keys, every route under its key.\<close>

definition fibOk :: "(('a :: linorder) Key \<times> 'a BcmRoute) list \<Rightarrow> bool" where
  "fibOk fib = (sorted_wrt Key_less (map fst fib) \<and> (\<forall>e \<in> set fib. keyOf (snd e) = fst e))"

text \<open>
  The table after the three routes have been added to the empty table, in the order
  10.0.0.0/24, 9.0.0.0/25, 10.2.0.0/16, and what it is expected to be.
\<close>

definition tableAfter ::
  "BcmError + (32 word BcmSwitch \<times> (32 word Key \<times> 32 word BcmRoute) list)" where
  "tableAfter =
     (case BcmRouteTable_addRoute bdeps0 (\<lambda>a. a) 0 hwRoute10 (hw0, []) of
        Inl e \<Rightarrow> Inl e
      | Inr hf \<Rightarrow>
          (case BcmRouteTable_addRoute bdeps0 (\<lambda>a. a) 0 hwRoute9 hf of
             Inl e \<Rightarrow> Inl e
           | Inr hf \<Rightarrow> BcmRouteTable_addRoute bdeps0 (\<lambda>a. a) 0 hwRoute102 hf))"

definition group1 :: "32 word BcmMultiPathNextHop" where
  "group1 =
     \<lparr>mp_vrf = 0, mp_fwd = [hop1\<lparr>weight := 1\<rparr>], mp_nexthops = [100001], mp_ecmpEgress = None\<rparr>"

definition group2 :: "32 word BcmMultiPathNextHop" where
  "group2 =
     \<lparr>mp_vrf = 0, mp_fwd = [hop1\<lparr>weight := 1\<rparr>, hop2\<lparr>weight := 1\<rparr>],
      mp_nexthops = [100001, 100002], mp_ecmpEgress = Some [100001, 100002]\<rparr>"

definition hwAfter :: "32 word BcmSwitch" where
  "hwAfter =
     \<lparr>getDropEgressId = 100000, getToCPUEgressId = 100001,
      multiPathNextHopTable =
        [((0, [hop1\<lparr>weight := 1\<rparr>]), (group1, 1)),
         ((0, [hop1\<lparr>weight := 1\<rparr>, hop2\<lparr>weight := 1\<rparr>]), (group2, 1))]\<rparr>"

definition fibAfter :: "(32 word Key \<times> 32 word BcmRoute) list" where
  "fibAfter =
     [(\<lparr>key_network = 0x0a020000, key_mask = 16, key_vrf = 0\<rparr>,
       \<lparr>route_vrf = 0, route_prefix = 0x0a020000, route_len = 16,
        route_fwd = RouteNextHopEntry_nhops [hop1\<lparr>weight := 1\<rparr>, hop2\<lparr>weight := 1\<rparr>] 20,
        route_added = True, route_egressId = 200256,
        route_nextHopHostReference = Some (0, [hop1\<lparr>weight := 1\<rparr>, hop2\<lparr>weight := 1\<rparr>])\<rparr>),
      (\<lparr>key_network = 0x0a000000, key_mask = 24, key_vrf = 0\<rparr>,
       \<lparr>route_vrf = 0, route_prefix = 0x0a000000, route_len = 24,
        route_fwd = RouteNextHopEntry_nhops [hop1\<lparr>weight := 1\<rparr>] 20,
        route_added = True, route_egressId = 100001,
        route_nextHopHostReference = Some (0, [hop1\<lparr>weight := 1\<rparr>])\<rparr>),
      (\<lparr>key_network = 0x09000000, key_mask = 25, key_vrf = 0\<rparr>,
       \<lparr>route_vrf = 0, route_prefix = 0x09000000, route_len = 25,
        route_fwd = RouteNextHopEntry_action DROP 1,
        route_added = True, route_egressId = 100000,
        route_nextHopHostReference = None\<rparr>)]"

text \<open>
  Programming a new route for 10.0.0.0/24 with the single next hop \<open>hop1\<close> on the
  switch without multipath next hops, and the switch and the route expected after it.
\<close>

definition fwdOne :: "32 word RouteNextHopEntry" where
  "fwdOne = RouteNextHopEntry_nhops [hop1\<lparr>weight := 1\<rparr>] 20"

definition routeNew :: "32 word BcmRoute" where
  "routeNew = BcmRoute_new bdeps0 0 0x0a000000 24"

definition hwOne :: "32 word BcmSwitch" where
  "hwOne = hw0\<lparr>multiPathNextHopTable := [((0, [hop1\<lparr>weight := 1\<rparr>]), (group1, 1))]\<rparr>"

definition routeOne :: "32 word BcmRoute" where
  "routeOne =
     \<lparr>route_vrf = 0, route_prefix = 0x0a000000, route_len = 24, route_fwd = fwdOne,
      route_added = True, route_egressId = 100001,
      route_nextHopHostReference = Some (0, [hop1\<lparr>weight := 1\<rparr>])\<rparr>"

section \<open>The thrift handler\<close>

subsection \<open>Thrift structures\<close>

text \<open>
  The structures of the agent's thrift interface that the handler reads and writes. A
  \<open>BinaryAddress\<close> carries the bytes of an address, here the address they encode, and an
  optional interface name; \<open>toBinaryAddress\<close> and \<open>toIPAddress\<close> (namespace
  \<open>facebook::network\<close>) convert between it and \<open>folly::IPAddress\<close>. Thrift's \<open>i16\<close> and
  \<open>i32\<close> are 16 and 32 bit words, read as signed numbers with \<open>sint\<close>.
\<close>

record BinaryAddress =
  ba_addr :: IPAddress
  ifName :: "string option"

definition toBinaryAddress :: "IPAddress \<Rightarrow> BinaryAddress" where
  "toBinaryAddress a = \<lparr>ba_addr = a, ifName = None\<rparr>"

definition toIPAddress :: "BinaryAddress \<Rightarrow> IPAddress" where
  "toIPAddress b = ba_addr b"

record IpPrefix =
  ip :: BinaryAddress
  prefixLength :: "16 word"

record NextHopThrift =
  address :: BinaryAddress
  nht_weight :: "32 word"

record UnicastRoute =
  dest :: IpPrefix
  nextHopAddrs :: "BinaryAddress list"
  adminDistance :: "AdminDistance option"
  nextHops :: "NextHopThrift list"


subsection \<open>The switch\<close>

text \<open>
  The switch state as far as the handler's route calls reach into it: the route tables
  of the VRFs, the FIBs the standalone RIB publishes, and the label FIB (label, then the
  entry of each client).
\<close>

record SwitchState =
  getRouteTables :: "RouteTable list"
  getFibs :: "(RouterID \<times> ForwardingInformationBaseContainer) list"
  getLabelForwardingInformationBase :: "(32 word \<times> (ClientID \<times> IPAddress RouteNextHopEntry) list) list"

text \<open>
  \<open>SwSwitch\<close>: the flags the handler tests, the admin distance the configuration gives a
  client, the standalone RIB, the current state and the state applied to the hardware.
\<close>

record SwSwitch =
  isFullyConfigured :: bool
  isFibSynced :: bool
  isStandaloneRibEnabled :: bool
  clientIdToAdminDistance :: "int \<Rightarrow> AdminDistance"
  getRib :: RoutingInformationBase
  getState :: SwitchState
  getAppliedState :: SwitchState

text \<open>
  The errors the handler throws, one constructor for each \<open>throw\<close> of the code that is
  modelled; \<open>NoSuchVrf\<close> is the error of an update for a VRF the RIB does not have, and
  \<open>CalleeError\<close> an error thrown inside the label FIB, whose code is not among the sources.
\<close>

datatype FbossError =
    NotFullyConfigured
  | FibNotSynced
  | InvalidLabelValue "32 word"
  | InvalidMplsRoutes
  | NoSuchVrf RouterID
  | CalleeError string

text \<open>
  What the handler takes from code that is not among the sources, as parameters:
  \<^item> \<open>toRouteNextHopSet\<close>, \<open>fromRouteNextHopSet\<close>, \<open>createTunIntfName\<close> of namespace \<open>util\<close>;
  \<^item> \<open>programLabel\<close>, \<open>unprogramLabel\<close> of the label FIB, which return the new state or throw;
  \<^item> \<open>isValidStateUpdate\<close> of the switch, on the old and the new state.
\<close>

record ThriftDeps =
  ribDeps :: RibDeps
  toRouteNextHopSet :: "NextHopThrift list \<Rightarrow> IPAddress RouteNextHopSet"
  fromRouteNextHopSet :: "IPAddress RouteNextHopSet \<Rightarrow> NextHopThrift list"
  createTunIntfName :: "InterfaceID \<Rightarrow> string"
  programLabel :: "SwitchState \<Rightarrow> 32 word \<Rightarrow> ClientID \<Rightarrow> AdminDistance \<Rightarrow> IPAddress RouteNextHopSet
                   \<Rightarrow> string + SwitchState"
  unprogramLabel :: "SwitchState \<Rightarrow> 32 word \<Rightarrow> ClientID \<Rightarrow> string + SwitchState"
  isValidStateUpdate :: "SwitchState \<Rightarrow> SwitchState \<Rightarrow> bool"

text \<open>\<open>ThriftHandler::ensureConfigured\<close> and \<open>ensureFibSynced\<close>: the error thrown, if any.\<close>

definition ensureConfigured :: "SwSwitch \<Rightarrow> FbossError option" where
  "ensureConfigured sw = (if isFullyConfigured sw then None else Some NotFullyConfigured)"

definition ensureFibSynced :: "SwSwitch \<Rightarrow> FbossError option" where
  "ensureFibSynced sw = (if isFibSynced sw then None else Some FibNotSynced)"

text \<open>
  Modelled from the spec: \<open>SwSwitch::updateStateBlocking\<close> is not among the sources. It is
  the apply callback of spec 6: it runs the update function on the current state and
  blocks until the result is applied; an update function that throws fails the whole
  transaction and nothing is committed (spec 4.8), and one that returns no state changes
  nothing. A call of the handler returns the error it throws, if any, and the switch as
  the call leaves it.
\<close>

definition updateStateBlocking ::
  "(SwitchState \<Rightarrow> FbossError + SwitchState option) \<Rightarrow> SwSwitch \<Rightarrow> FbossError option \<times> SwSwitch" where
  "updateStateBlocking updateFn sw =
     (case updateFn (getState sw) of
        Inl e \<Rightarrow> (Some e, sw)
      | Inr None \<Rightarrow> (None, sw)
      | Inr (Some newState) \<Rightarrow> (None, sw\<lparr>getState := newState, getAppliedState := newState\<rparr>))"

subsection \<open>Unicast routes\<close>


fun thriftNextHopsFromAddresses :: "BinaryAddress list \<Rightarrow> NextHopThrift list" where
  "thriftNextHopsFromAddresses [] = []"
| "thriftNextHopsFromAddresses (a # addrs) =
     \<lparr>address = a, nht_weight = 0\<rparr> # thriftNextHopsFromAddresses addrs"

text \<open>
  The body of the loop of \<open>updateUnicastRoutesImpl\<close> up to the call of \<open>addRoute\<close>: the
  prefix of a thrift route and the candidate it is added with. The mask is the prefix
  length cast to \<open>uint8_t\<close>. A route without next hops is a blackhole route.
\<close>

definition routeCandidate ::
  "ThriftDeps \<Rightarrow> AdminDistance \<Rightarrow> UnicastRoute \<Rightarrow> (IPAddress \<times> 8 word) \<times> IPAddress RouteNextHopEntry" where
  "routeCandidate D clientIdToAdmin route =
     (let network = toIPAddress (ip (dest route));
          msk = (ucast (prefixLength (dest route)) :: 8 word);
          adminDistance = (case adminDistance route of Some a \<Rightarrow> a | None \<Rightarrow> clientIdToAdmin);
          nhts = (if nextHops route = [] \<and> nextHopAddrs route \<noteq> []
                  then thriftNextHopsFromAddresses (nextHopAddrs route)
                  else nextHops route);
          nexthops = toRouteNextHopSet D nhts
      in if length nexthops \<noteq> 0
         then ((network, msk), RouteNextHopEntry_nhops nexthops adminDistance)
         else ((network, msk), RouteNextHopEntry_action DROP adminDistance))"

text \<open>The loops of the update functions of the switch-state path over the routes to add
  and over the prefixes to delete.\<close>

fun addUnicastRoutesLoop ::
  "ThriftDeps \<Rightarrow> AdminDistance \<Rightarrow> ClientID \<Rightarrow> UnicastRoute list \<Rightarrow> RouteTable \<Rightarrow> RouteTable" where
  "addUnicastRoutesLoop D clientIdToAdmin client [] updater = updater"
| "addUnicastRoutesLoop D clientIdToAdmin client (route # routes) updater =
     (let cand = routeCandidate D clientIdToAdmin route
      in addUnicastRoutesLoop D clientIdToAdmin client routes
           (addRoute (fst (fst cand)) (snd (fst cand)) client (snd cand) updater))"

fun deleteUnicastRoutesLoop :: "ClientID \<Rightarrow> IpPrefix list \<Rightarrow> RouteTable \<Rightarrow> RouteTable" where
  "deleteUnicastRoutesLoop client [] updater = updater"
| "deleteUnicastRoutesLoop client (pfx # prefixes) updater =
     (let network = toIPAddress (ip pfx);
          msk = (ucast (prefixLength pfx) :: 8 word)
      in deleteUnicastRoutesLoop client prefixes (delRoute network msk client updater))"

text \<open>Storing the table of a VRF back into the tables.\<close>

definition setRouteTable :: "RouteTable \<Rightarrow> RouteTable list \<Rightarrow> RouteTable list" where
  "setRouteTable rt tables = map (\<lambda>t. if getID t = getID rt then rt else t) tables"

text \<open>
  Modelled from the spec: \<open>RoutingInformationBase::update\<close> is not among the sources.
  Spec 4.7: a single transaction; it errors if the VRF does not exist; if \<open>resetClient\<close>,
  it first removes all of that client's candidates in that VRF; it applies the deletes and
  then the adds, so that adds take precedence; it commits (resolution), builds the FIB
  and invokes the apply callback, and the RIB keeps the update whatever the callback
  does. The spec does not say how an added thrift route becomes a candidate: the model
  uses \<open>routeCandidate\<close>, the conversion of the handler's own loop.
\<close>

definition ribTransaction ::
  "ThriftDeps \<Rightarrow> ClientID \<Rightarrow> AdminDistance \<Rightarrow> UnicastRoute list \<Rightarrow> IpPrefix list \<Rightarrow> bool
     \<Rightarrow> RouteTable \<Rightarrow> RouteTable" where
  "ribTransaction D client defaultAdminDistance toAdd toDelete resetClient rt =
     (let updater = (if resetClient then removeAllRoutesForClient client rt else rt);
          updater = fold (\<lambda>pfx. delRoute (toIPAddress (ip pfx)) (ucast (prefixLength pfx)) client)
                      toDelete updater;
          updater = fold (\<lambda>route. addRoute (fst (fst (routeCandidate D defaultAdminDistance route)))
                                     (snd (fst (routeCandidate D defaultAdminDistance route))) client
                                     (snd (routeCandidate D defaultAdminDistance route)))
                      toAdd updater
      in updateDone (ribDeps D) updater)"

definition RoutingInformationBase_update ::
  "ThriftDeps \<Rightarrow> RouterID \<Rightarrow> ClientID \<Rightarrow> AdminDistance \<Rightarrow> UnicastRoute list \<Rightarrow> IpPrefix list \<Rightarrow> bool
     \<Rightarrow> SwSwitch \<Rightarrow> FbossError option \<times> SwSwitch" where
  "RoutingInformationBase_update D vrf client defaultAdminDistance toAdd toDelete resetClient sw =
     (case getRouteTableIf (getRib sw) vrf of
        None \<Rightarrow> (Some (NoSuchVrf vrf), sw)
      | Some rt \<Rightarrow>
          (let rt' = ribTransaction D client defaultAdminDistance toAdd toDelete resetClient rt;
               sw' = sw\<lparr>getRib := setRouteTable rt' (getRib sw)\<rparr>
           in updateStateBlocking
                (\<lambda>state. Inr (Some (state\<lparr>getFibs :=
                    AList.update vrf (ForwardingInformationBaseUpdater rt') (getFibs state)\<rparr>)))
                sw'))"

text \<open>
  \<open>ThriftHandler::updateUnicastRoutesImpl\<close>. With the standalone RIB it is one call of
  the RIB's \<open>update\<close>. Otherwise it is an update function on the switch state, run by
  \<open>updateStateBlocking\<close>: a \<open>RouteUpdater\<close> on the state's route tables for VRF 0, which
  returns no tables when nothing changed. As in the RIB's \<open>update\<close>, a VRF without a table
  is an error of the updater. The counters of \<open>sw_->stats()\<close> and the log lines are left
  out.
\<close>

definition updateUnicastRoutesImpl ::
  "ThriftDeps \<Rightarrow> 16 word \<Rightarrow> UnicastRoute list \<Rightarrow> bool \<Rightarrow> SwSwitch \<Rightarrow> FbossError option \<times> SwSwitch" where
  "updateUnicastRoutesImpl D client routes sync sw =
     (if isStandaloneRibEnabled sw
      then RoutingInformationBase_update D 0 (sint client) (clientIdToAdminDistance sw (sint client))
             routes [] sync sw
      else updateStateBlocking
             (\<lambda>state.
                case getRouteTableIf (getRouteTables state) 0 of
                  None \<Rightarrow> Inl (NoSuchVrf 0)
                | Some rt \<Rightarrow>
                    (let clientIdToAdmin = clientIdToAdminDistance sw (sint client);
                         updater = (if sync then removeAllRoutesForClient (sint client) rt else rt);
                         updater = addUnicastRoutesLoop D clientIdToAdmin (sint client) routes updater;
                         newRt = setRouteTable (updateDone (ribDeps D) updater) (getRouteTables state)
                     in if newRt = getRouteTables state then Inr None
                        else Inr (Some (state\<lparr>getRouteTables := newRt\<rparr>))))
             sw)"

text \<open>\<open>ThriftHandler::addUnicastRoutes\<close>, \<open>deleteUnicastRoutes\<close> and \<open>syncFib\<close>.\<close>

definition addUnicastRoutes ::
  "ThriftDeps \<Rightarrow> 16 word \<Rightarrow> UnicastRoute list \<Rightarrow> SwSwitch \<Rightarrow> FbossError option \<times> SwSwitch" where
  "addUnicastRoutes D client routes sw =
     (case ensureConfigured sw of
        Some e \<Rightarrow> (Some e, sw)
      | None \<Rightarrow>
          (case ensureFibSynced sw of
             Some e \<Rightarrow> (Some e, sw)
           | None \<Rightarrow> updateUnicastRoutesImpl D client routes False sw))"

definition deleteUnicastRoutes ::
  "ThriftDeps \<Rightarrow> 16 word \<Rightarrow> IpPrefix list \<Rightarrow> SwSwitch \<Rightarrow> FbossError option \<times> SwSwitch" where
  "deleteUnicastRoutes D client prefixes sw =
     (case ensureConfigured sw of
        Some e \<Rightarrow> (Some e, sw)
      | None \<Rightarrow>
          (case ensureFibSynced sw of
             Some e \<Rightarrow> (Some e, sw)
           | None \<Rightarrow>
               if isStandaloneRibEnabled sw
               then RoutingInformationBase_update D 0 (sint client)
                      (clientIdToAdminDistance sw (sint client)) [] prefixes False sw
               else updateStateBlocking
                      (\<lambda>state.
                         case getRouteTableIf (getRouteTables state) 0 of
                           None \<Rightarrow> Inl (NoSuchVrf 0)
                         | Some rt \<Rightarrow>
                             (let updater = deleteUnicastRoutesLoop (sint client) prefixes rt;
                                  newRt = setRouteTable (updateDone (ribDeps D) updater)
                                            (getRouteTables state)
                              in if newRt = getRouteTables state then Inr None
                                 else Inr (Some (state\<lparr>getRouteTables := newRt\<rparr>))))
                      sw))"

definition syncFib ::
  "ThriftDeps \<Rightarrow> 16 word \<Rightarrow> UnicastRoute list \<Rightarrow> SwSwitch \<Rightarrow> FbossError option \<times> SwSwitch" where
  "syncFib D client routes sw =
     (case ensureConfigured sw of
        Some e \<Rightarrow> (Some e, sw)
      | None \<Rightarrow>
          (case updateUnicastRoutesImpl D client routes True sw of
             (Some e, sw') \<Rightarrow> (Some e, sw')
           | (None, sw') \<Rightarrow> (None, if \<not> isFibSynced sw' then sw'\<lparr>isFibSynced := True\<rparr> else sw')))"

subsection \<open>Route queries\<close>











subsection \<open>MPLS routes\<close>






subsection \<open>Runs of route calls\<close>

text \<open>
  The route tables the unicast calls work on: the standalone RIB when it is enabled, the
  route tables of the switch state otherwise.
\<close>

definition routeTablesOf :: "SwSwitch \<Rightarrow> RouteTable list" where
  "routeTablesOf sw = (if isStandaloneRibEnabled sw then getRib sw else getRouteTables (getState sw))"

text \<open>
  A client's calls, one after the other: \<open>finalSwitch\<close> is the switch after a list of
  calls, and \<open>syncSucceeded\<close> tells whether some \<open>syncFib\<close> among them returned without an
  error.
\<close>

datatype ThriftCall =
    AddUnicastRoutes "16 word" "UnicastRoute list"
  | DeleteUnicastRoutes "16 word" "IpPrefix list"
  | SyncFib "16 word" "UnicastRoute list"

fun thriftCall :: "ThriftDeps \<Rightarrow> ThriftCall \<Rightarrow> SwSwitch \<Rightarrow> FbossError option \<times> SwSwitch" where
  "thriftCall D (AddUnicastRoutes c routes) sw = addUnicastRoutes D c routes sw"
| "thriftCall D (DeleteUnicastRoutes c prefixes) sw = deleteUnicastRoutes D c prefixes sw"
| "thriftCall D (SyncFib c routes) sw = syncFib D c routes sw"

fun isSyncFib :: "ThriftCall \<Rightarrow> bool" where
  "isSyncFib (SyncFib c routes) = True"
| "isSyncFib call = False"

fun finalSwitch :: "ThriftDeps \<Rightarrow> ThriftCall list \<Rightarrow> SwSwitch \<Rightarrow> SwSwitch" where
  "finalSwitch D [] sw = sw"
| "finalSwitch D (call # calls) sw = finalSwitch D calls (snd (thriftCall D call sw))"

fun syncSucceeded :: "ThriftDeps \<Rightarrow> ThriftCall list \<Rightarrow> SwSwitch \<Rightarrow> bool" where
  "syncSucceeded D [] sw = False"
| "syncSucceeded D (call # calls) sw =
     ((isSyncFib call \<and> fst (thriftCall D call sw) = None)
      \<or> syncSucceeded D calls (snd (thriftCall D call sw)))"

subsection \<open>A small switch\<close>

text \<open>
  Helpers that stand in for the code that is not among the sources, a switch that is
  configured but whose FIB is not yet synced, with the table \<open>table0\<close> for VRF 0, and three
  thrift routes: a blackhole route for 20.0.0.0/8, a route for 30.0.0.0/8 with one next
  hop, and a blackhole route for 40.0.0.0/8 with its own admin distance.
\<close>

definition programLabel0 ::
  "SwitchState \<Rightarrow> 32 word \<Rightarrow> ClientID \<Rightarrow> AdminDistance \<Rightarrow> IPAddress RouteNextHopSet \<Rightarrow> string + SwitchState" where
  "programLabel0 s l c a n =
     Inr (s\<lparr>getLabelForwardingInformationBase :=
            AList.update l
              (AList.update c (RouteNextHopEntry_nhops n a)
                 (case map_of (getLabelForwardingInformationBase s) l of Some es \<Rightarrow> es | None \<Rightarrow> []))
              (getLabelForwardingInformationBase s)\<rparr>)"

definition unprogramLabel0 :: "SwitchState \<Rightarrow> 32 word \<Rightarrow> ClientID \<Rightarrow> string + SwitchState" where
  "unprogramLabel0 s l c =
     (case map_of (getLabelForwardingInformationBase s) l of
        None \<Rightarrow> Inl ''no such label''
      | Some es \<Rightarrow> Inr (s\<lparr>getLabelForwardingInformationBase :=
                          AList.delete l (getLabelForwardingInformationBase s)\<rparr>))"

definition tdeps0 :: ThriftDeps where
  "tdeps0 =
     \<lparr>ribDeps = deps0,
      toRouteNextHopSet = map (\<lambda>n. \<lparr>addr = toIPAddress (address n), intf = 1, weight = unat (nht_weight n)\<rparr>),
      fromRouteNextHopSet = map (\<lambda>n. \<lparr>address = toBinaryAddress (addr n), nht_weight = of_nat (weight n)\<rparr>),
      createTunIntfName = (\<lambda>i. ''fboss1''),
      programLabel = programLabel0,
      unprogramLabel = unprogramLabel0,
      isValidStateUpdate = (\<lambda>old new. True)\<rparr>"

definition state0 :: SwitchState where
  "state0 = \<lparr>getRouteTables = [table0], getFibs = [], getLabelForwardingInformationBase = []\<rparr>"

definition switch0 :: SwSwitch where
  "switch0 =
     \<lparr>isFullyConfigured = True,
      isFibSynced = False,
      isStandaloneRibEnabled = False,
      clientIdToAdminDistance = (\<lambda>c. if c = 0 then 20 else 255),
      getRib = [table0],
      getState = state0,
      getAppliedState = state0\<rparr>"

definition route20 :: UnicastRoute where
  "route20 =
     \<lparr>dest = \<lparr>ip = toBinaryAddress (IPAddressV4 0x14000000), prefixLength = 8\<rparr>,
      nextHopAddrs = [], adminDistance = None, nextHops = []\<rparr>"

definition route30 :: UnicastRoute where
  "route30 =
     \<lparr>dest = \<lparr>ip = toBinaryAddress (IPAddressV4 0x1e000000), prefixLength = 8\<rparr>,
      nextHopAddrs = [toBinaryAddress (IPAddressV4 0x0a000002)], adminDistance = None, nextHops = []\<rparr>"







section \<open>Facts about the route updater\<close>

lemma delete_empty_map_of:
  "AList.delete c al = [] \<Longrightarrow> c' \<noteq> c \<Longrightarrow> map_of al c' = None"
proof -
  assume a: "AList.delete c al = []" and n: "c' \<noteq> c"
  have "map_of (AList.delete c al) c' = map_of al c'"
    using n by (simp add: delete_conv)
  with a show ?thesis by simp
qed

lemma hasCandidate_Nil [simp]: "hasCandidate [] p c e = False"
  by (simp add: hasCandidate_def)

lemma hasCandidate_Cons:
  "hasCandidate (r # rs) p c e = ((prefix r = p \<and> map_of (entries r) c = Some e) \<or> hasCandidate rs p c e)"
  by (simp add: hasCandidate_def)



lemma hasCandidate_delRouteImpl:
  "hasCandidate (delRouteImpl p c rs) p' c' e = (\<not> (p' = p \<and> c' = c) \<and> hasCandidate rs p' c' e)"
proof (induction rs)
  case Nil
  show ?case by simp
next
  case (Cons r rs)
  show ?case
  proof (cases "AList.delete c (entries r) = []")
    case True
    then have "c' \<noteq> c \<Longrightarrow> map_of (entries r) c' = None"
      by (rule delete_empty_map_of)
    with True Cons show ?thesis
      by (auto simp add: remove_client_def hasCandidate_Cons Let_def)
  next
    case False
    with Cons show ?thesis
      by (auto simp add: remove_client_def hasCandidate_Cons Let_def delete_conv)
  qed
qed





lemma tableCandidate_delRoute:
  "tableCandidate (delRoute n m c rt) p c' e' =
     (\<not> (p = (n, m) \<and> c' = c) \<and> tableCandidate rt p c' e')"
  by (cases n; cases p; cases "fst p")
     (auto simp add: tableCandidate_def delRoute_def hasCandidate_delRouteImpl)





lemma offers_Nil [simp]: "offers [] p e = False"
  by (simp add: offers_def)












lemma getID_addRoute [simp]: "getID (addRoute n m c e rt) = getID rt"
  by (cases n) (simp_all add: addRoute_def)

lemma getID_addRoutes [simp]: "getID (addRoutes c kvs rt) = getID rt"
  by (induction kvs arbitrary: rt) (simp_all add: addRoutes_def)










section \<open>Facts about the thrift handler\<close>

lemma updateStateBlocking_flags:
  "isFibSynced (snd (updateStateBlocking f sw)) = isFibSynced sw
   \<and> isFullyConfigured (snd (updateStateBlocking f sw)) = isFullyConfigured sw
   \<and> isStandaloneRibEnabled (snd (updateStateBlocking f sw)) = isStandaloneRibEnabled sw"
  by (simp add: updateStateBlocking_def split: sum.splits option.splits)

lemma RoutingInformationBase_update_flags:
  "isFibSynced (snd (RoutingInformationBase_update D vrf c ad toAdd toDelete reset sw)) = isFibSynced sw"
  by (simp add: RoutingInformationBase_update_def Let_def updateStateBlocking_flags
      split: option.splits)

lemma updateUnicastRoutesImpl_flags:
  "isFibSynced (snd (updateUnicastRoutesImpl D c routes sync sw)) = isFibSynced sw"
  by (simp add: updateUnicastRoutesImpl_def updateStateBlocking_flags
      RoutingInformationBase_update_flags)

lemma addUnicastRoutes_unsynced:
  "\<not> isFibSynced sw \<Longrightarrow>
     addUnicastRoutes D c routes sw
       = (Some (if isFullyConfigured sw then FibNotSynced else NotFullyConfigured), sw)"
  by (simp add: addUnicastRoutes_def ensureConfigured_def ensureFibSynced_def)

lemma deleteUnicastRoutes_unsynced:
  "\<not> isFibSynced sw \<Longrightarrow>
     deleteUnicastRoutes D c prefixes sw
       = (Some (if isFullyConfigured sw then FibNotSynced else NotFullyConfigured), sw)"
  by (simp add: deleteUnicastRoutes_def ensureConfigured_def ensureFibSynced_def)

lemma addUnicastRoutes_synced:
  "isFibSynced (snd (addUnicastRoutes D c routes sw)) = isFibSynced sw"
  by (simp add: addUnicastRoutes_def updateUnicastRoutesImpl_flags split: option.splits)

lemma deleteUnicastRoutes_synced:
  "isFibSynced (snd (deleteUnicastRoutes D c prefixes sw)) = isFibSynced sw"
  by (simp add: deleteUnicastRoutes_def updateStateBlocking_flags
      RoutingInformationBase_update_flags split: option.splits)

lemma syncFib_synced:
  "isFibSynced (snd (syncFib D c routes sw)) = (isFibSynced sw \<or> fst (syncFib D c routes sw) = None)"
proof (cases "updateUnicastRoutesImpl D c routes True sw")
  case (Pair r sw')
  have "isFibSynced sw' = isFibSynced sw"
    using updateUnicastRoutesImpl_flags [of D c routes True sw] Pair by simp
  with Pair show ?thesis
    by (cases r) (auto simp add: syncFib_def ensureConfigured_def)
qed

lemma updateStateBlocking_error:
  "fst (updateStateBlocking f sw) = Some e \<Longrightarrow> f (getState sw) = Inl e"
  by (auto simp add: updateStateBlocking_def split: sum.splits option.splits)

lemma RoutingInformationBase_update_error:
  "fst (RoutingInformationBase_update D vrf c ad toAdd toDelete reset sw) = Some e \<Longrightarrow> e = NoSuchVrf vrf"
  by (auto simp add: RoutingInformationBase_update_def Let_def updateStateBlocking_def
      split: option.splits)

lemma updateUnicastRoutesImpl_error:
  "fst (updateUnicastRoutesImpl D c routes sync sw) = Some e \<Longrightarrow> e = NoSuchVrf 0"
  by (auto simp add: updateUnicastRoutesImpl_def Let_def updateStateBlocking_def
      dest: RoutingInformationBase_update_error split: option.splits if_splits)

lemma syncFib_error:
  "fst (syncFib D c routes sw) = Some e \<Longrightarrow> e = NotFullyConfigured \<or> e = NoSuchVrf 0"
proof (cases "updateUnicastRoutesImpl D c routes True sw")
  case (Pair r sw')
  assume a: "fst (syncFib D c routes sw) = Some e"
  show ?thesis
  proof (cases "isFullyConfigured sw")
    case False
    with a show ?thesis by (simp add: syncFib_def ensureConfigured_def)
  next
    case True
    with a Pair have "r = Some e"
      by (cases r) (simp_all add: syncFib_def ensureConfigured_def)
    with Pair updateUnicastRoutesImpl_error [of D c routes True sw e] show ?thesis by simp
  qed
qed

lemma addUnicastRoutes_error:
  "fst (addUnicastRoutes D c routes sw) = Some e \<Longrightarrow> isFibSynced sw \<Longrightarrow> e \<noteq> FibNotSynced"
  by (auto simp add: addUnicastRoutes_def ensureConfigured_def ensureFibSynced_def
      dest: updateUnicastRoutesImpl_error split: if_splits)

lemma deleteUnicastRoutes_error:
  "fst (deleteUnicastRoutes D c prefixes sw) = Some e \<Longrightarrow> isFibSynced sw \<Longrightarrow> e \<noteq> FibNotSynced"
  by (auto simp add: deleteUnicastRoutes_def ensureConfigured_def ensureFibSynced_def
      updateStateBlocking_def Let_def
      dest: RoutingInformationBase_update_error split: if_splits option.splits)

lemma thriftCall_synced:
  "isFibSynced (snd (thriftCall D call sw))
     = (isFibSynced sw \<or> (isSyncFib call \<and> fst (thriftCall D call sw) = None))"
  by (cases call) (simp_all add: addUnicastRoutes_synced deleteUnicastRoutes_synced syncFib_synced)

lemma finalSwitch_synced:
  "isFibSynced (finalSwitch D calls sw) = (isFibSynced sw \<or> syncSucceeded D calls sw)"
  by (induction calls arbitrary: sw) (auto simp add: thriftCall_synced)


text \<open>
  C10. While the FIB is not synced, \<open>addUnicastRoutes\<close> and \<open>deleteUnicastRoutes\<close> fail
  (with the FIB-not-synced error on a configured switch) and leave the switch, and with it
  the RIB, as it was. \<open>syncFib\<close> is never refused for that reason; when it returns without
  an error the FIB is marked as synced, and a failed \<open>syncFib\<close> leaves the mark as it was.
  Once the FIB is synced, add and delete calls are no longer refused for that reason and
  the mark stays. So in every run of calls the FIB is synced exactly from the first
  successful \<open>syncFib\<close> on.
\<close>

theorem C10_fib_sync_gate:
  "(\<not> isFibSynced sw \<longrightarrow>
        addUnicastRoutes D c routes sw
          = (Some (if isFullyConfigured sw then FibNotSynced else NotFullyConfigured), sw)
      \<and> deleteUnicastRoutes D c prefixes sw
          = (Some (if isFullyConfigured sw then FibNotSynced else NotFullyConfigured), sw))
   \<and> fst (syncFib D c routes sw) \<noteq> Some FibNotSynced
   \<and> isFibSynced (snd (syncFib D c routes sw))
       = (isFibSynced sw \<or> fst (syncFib D c routes sw) = None)
   \<and> (isFibSynced sw \<longrightarrow>
        fst (addUnicastRoutes D c routes sw) \<noteq> Some FibNotSynced
      \<and> fst (deleteUnicastRoutes D c prefixes sw) \<noteq> Some FibNotSynced
      \<and> isFibSynced (snd (addUnicastRoutes D c routes sw))
      \<and> isFibSynced (snd (deleteUnicastRoutes D c prefixes sw)))
   \<and> isFibSynced (finalSwitch D calls sw) = (isFibSynced sw \<or> syncSucceeded D calls sw)"
proof -
  have a: "fst (syncFib D c routes sw) \<noteq> Some FibNotSynced"
    using syncFib_error [of D c routes sw FibNotSynced] by auto
  have b: "isFibSynced sw \<Longrightarrow> fst (addUnicastRoutes D c routes sw) \<noteq> Some FibNotSynced"
    using addUnicastRoutes_error [of D c routes sw FibNotSynced] by auto
  have d: "isFibSynced sw \<Longrightarrow> fst (deleteUnicastRoutes D c prefixes sw) \<noteq> Some FibNotSynced"
    using deleteUnicastRoutes_error [of D c prefixes sw FibNotSynced] by auto
  show ?thesis
    using a b d
    by (simp add: addUnicastRoutes_unsynced deleteUnicastRoutes_unsynced syncFib_synced
        addUnicastRoutes_synced deleteUnicastRoutes_synced finalSwitch_synced)
qed

theorem C10_fib_sync_gate_witness:
  "\<not> isFibSynced switch0
   \<and> addUnicastRoutes tdeps0 0 [route20] switch0 = (Some FibNotSynced, switch0)
   \<and> deleteUnicastRoutes tdeps0 0 [dest route20] switch0 = (Some FibNotSynced, switch0)
   \<and> fst (syncFib tdeps0 0 [route20] switch0) = None
   \<and> isFibSynced (snd (syncFib tdeps0 0 [route20] switch0))
   \<and> fst (addUnicastRoutes tdeps0 0 [route30] (snd (syncFib tdeps0 0 [route20] switch0)))
        \<noteq> Some FibNotSynced"
proof -
  have u: "\<not> isFibSynced switch0" and f: "isFullyConfigured switch0"
    by (simp_all add: switch0_def)
  have ok: "fst (syncFib tdeps0 0 [route20] switch0) = None"
    by (simp add: syncFib_def ensureConfigured_def switch0_def updateUnicastRoutesImpl_def
        updateStateBlocking_def state0_def getRouteTableIf_def table0_def Let_def
        split: option.splits sum.splits)
  show ?thesis
    using u f ok
      C10_fib_sync_gate [where sw = switch0 and D = tdeps0 and c = 0 and routes = "[route20]"
        and prefixes = "[dest route20]" and calls = "[]"]
      C10_fib_sync_gate [where sw = "snd (syncFib tdeps0 0 [route20] switch0)" and D = tdeps0
        and c = 0 and routes = "[route30]" and prefixes = "[]" and calls = "[]"]
    by simp
qed

















lemma getID_delRoute [simp]: "getID (delRoute n m c rt) = getID rt"
  by (cases n) (simp_all add: delRoute_def)

lemma getID_removeAllRoutesForClient [simp]: "getID (removeAllRoutesForClient c rt) = getID rt"
  by (simp add: removeAllRoutesForClient_def)

lemma getID_updateDone [simp]: "getID (updateDone D rt) = getID rt"
  by (simp add: updateDone_def)








lemma routeTablesOf_isFibSynced [simp]:
  "routeTablesOf (sw\<lparr>isFibSynced := b\<rparr>) = routeTablesOf sw"
  by (simp add: routeTablesOf_def)





















section \<open>Facts about the hardware route table\<close>

lemma Key_less_iff: "Key_less k k2 = (keyTriple k < keyTriple k2)"
  by (auto simp add: Key_less_def keyTriple_def less_prod_def)

lemma keyTriple_inj: "keyTriple (k :: 'a Key) = keyTriple k' \<Longrightarrow> k = k'"
  by (cases k; cases k') (simp add: keyTriple_def)

lemma Key_less_trans: "Key_less a b \<Longrightarrow> Key_less b c \<Longrightarrow> Key_less a c"
  by (simp add: Key_less_iff)

lemma Key_less_total: "\<not> Key_less a b \<Longrightarrow> \<not> Key_less b a \<Longrightarrow> a = b"
  by (rule keyTriple_inj) (simp add: Key_less_iff)

lemma Key_less_irrefl: "\<not> Key_less a a"
  by (simp add: Key_less_iff)

lemma fst_set_fib_emplace:
  "fst ` set (fst (fib_emplace k v fib)) = insert k (fst ` set fib)"
proof (induction fib)
  case Nil
  show ?case by simp
next
  case (Cons e rest)
  obtain k' v' where e: "e = (k', v')" by (cases e)
  obtain rest' ins where r: "fib_emplace k v rest = (rest', ins)" by (cases "fib_emplace k v rest")
  have ih: "fst ` set rest' = insert k (fst ` set rest)"
    using Cons.IH r by simp
  show ?case
  proof (cases "Key_less k k'")
    case True
    then show ?thesis by (simp add: e)
  next
    case False
    show ?thesis
    proof (cases "Key_less k' k")
      case True
      with False ih show ?thesis
        by (simp add: e r insert_commute)
    next
      case False
      with \<open>\<not> Key_less k k'\<close> have "k = k'"
        by (rule Key_less_total)
      with False show ?thesis
        by (auto simp add: e Key_less_irrefl)
    qed
  qed
qed

lemma set_fib_emplace:
  "set (fst (fib_emplace k v fib)) \<subseteq> insert (k, v) (set fib)"
proof (induction fib)
  case Nil
  show ?case by simp
next
  case (Cons e rest)
  obtain k' v' where e: "e = (k', v')" by (cases e)
  show ?case
    using Cons.IH
    by (auto simp add: e split: prod.splits)
qed

lemma sorted_fib_emplace:
  "sorted_wrt Key_less (map fst fib) \<Longrightarrow> sorted_wrt Key_less (map fst (fst (fib_emplace k v fib)))"
proof (induction fib)
  case Nil
  show ?case by simp
next
  case (Cons e rest)
  obtain k' v' where e: "e = (k', v')" by (cases e)
  have tail: "sorted_wrt Key_less (map fst (fst (fib_emplace k v rest)))"
    using Cons by simp
  have above: "\<forall>x \<in> set rest. Key_less k' (fst x)"
    using Cons.prems by (auto simp add: e)
  show ?case
  proof (cases "Key_less k k'")
    case True
    then show ?thesis
      using Cons.prems above Key_less_trans [of k k'] by (auto simp add: e)
  next
    case False
    show ?thesis
    proof (cases "Key_less k' k")
      case True
      have "\<forall>a \<in> fst ` set (fst (fib_emplace k v rest)). Key_less k' a"
        unfolding fst_set_fib_emplace using above True by auto
      then have "\<forall>x \<in> set (fst (fib_emplace k v rest)). Key_less k' (fst x)"
        by auto
      with False True tail show ?thesis
        by (auto simp add: e split: prod.splits)
    next
      case False
      with \<open>\<not> Key_less k k'\<close> Cons.prems show ?thesis
        by (simp add: e)
    qed
  qed
qed

lemma map_of_fib_emplace: "map_of (fst (fib_emplace k v fib)) k \<noteq> None"
proof -
  have "k \<in> fst ` set (fst (fib_emplace k v fib))"
    by (simp add: fst_set_fib_emplace)
  then show ?thesis
    by (simp add: map_of_eq_None_iff)
qed

lemma program_keyOf:
  "program D fwd (hw, r) = Inr (hw', r') \<Longrightarrow> keyOf r' = keyOf r"
  by (auto simp add: program_def Let_def keyOf_def
      split: if_splits sum.splits prod.splits RouteForwardAction.splits option.splits)


lemma keyOf_BcmRoute_new:
  "keyOf (BcmRoute_new D vrf a len) = \<lparr>key_network = a, key_mask = len, key_vrf = vrf\<rparr>"
  by (simp add: keyOf_def BcmRoute_new_def)

lemma fibOk_fib_emplace:
  assumes "fibOk fib" and "keyOf v = k"
  shows "fibOk (fst (fib_emplace k v fib))"
  using assms sorted_fib_emplace [of fib k v] set_fib_emplace [of k v fib]
  by (auto simp add: fibOk_def)

lemma fibOk_update:
  assumes "fibOk fib" and "map_of fib k \<noteq> None" and "keyOf v = k"
  shows "fibOk (AList.update k v fib)"
proof -
  have "k \<in> set (map fst fib)"
    using assms(2) by (simp add: map_of_eq_None_iff)
  then have keys: "map fst (AList.update k v fib) = map fst fib"
    by (simp add: update_keys)
  have "set (AList.update k v fib) \<subseteq> insert (k, v) (set fib)"
    by (induction fib) auto
  with assms(1,3) keys show ?thesis
    by (auto simp add: fibOk_def)
qed

lemma fibOk_delete:
  assumes "fibOk fib"
  shows "fibOk (AList.delete k fib)"
proof -
  have keys: "map fst (AList.delete k fib) = filter (\<lambda>a. k \<noteq> a) (map fst fib)"
    by (simp add: delete_keys removeAll_filter_not_eq)
  have sub: "set (AList.delete k fib) \<subseteq> set fib"
    by (induction fib) auto
  from assms keys sub show ?thesis
    by (auto simp add: fibOk_def sorted_wrt_filter)
qed

lemma fibOk_addRouteAt:
  assumes "fibOk (snd hf)" and "BcmRouteTable_addRouteAt D vrf network msk forwardInfo hf = Inr hf'"
  shows "fibOk (snd hf')"
proof -
  let ?key = "\<lparr>key_network = network, key_mask = msk, key_vrf = vrf\<rparr>"
  let ?fib = "fst (fib_emplace ?key (BcmRoute_new D vrf network msk) (snd hf))"
  have ok: "fibOk ?fib"
    using assms(1) by (rule fibOk_fib_emplace) (rule keyOf_BcmRoute_new)
  from assms(2) obtain fwd r hw' r' where
    r: "map_of ?fib ?key = Some r" and p: "program D fwd (fst hf, r) = Inr (hw', r')"
    and hf': "hf' = (hw', AList.update ?key r' ?fib)"
    by (auto simp add: BcmRouteTable_addRouteAt_def Let_def
        split: option.splits sum.splits prod.splits)
  have "(?key, r) \<in> set ?fib"
    using r by (rule map_of_SomeD)
  then have "keyOf r = ?key"
    using ok by (auto simp add: fibOk_def)
  then have "keyOf r' = ?key"
    using program_keyOf [OF p] by simp
  then have "fibOk (AList.update ?key r' ?fib)"
    using ok r by (intro fibOk_update) simp_all
  with hf' show ?thesis by simp
qed

lemma fibOk_deleteRouteAt:
  assumes "fibOk (snd hf)" and "BcmRouteTable_deleteRouteAt vrf network msk hf = Inr hf'"
  shows "fibOk (snd hf')"
  using assms
  by (auto simp add: BcmRouteTable_deleteRouteAt_def Let_def fibOk_delete split: option.splits)

lemma reachableTable_fibOk: "reachableTable D hf \<Longrightarrow> fibOk (snd hf)"
proof (induction rule: reachableTable.induct)
  case (start hw)
  show ?case by (simp add: fibOk_def)
next
  case (add hf vrf network msk forwardInfo hf')
  then show ?case by (auto intro: fibOk_addRouteAt)
next
  case (delete hf vrf network msk hf')
  then show ?case by (auto intro: fibOk_deleteRouteAt)
qed

lemma fibOk_keys: "fibOk fib \<Longrightarrow> map keyOf (map snd fib) = map fst fib"
  by (induction fib) (auto simp add: fibOk_def)

lemma sorted_routes_unique:
  assumes "sorted_wrt Key_less (map keyOf xs)" and "sorted_wrt Key_less (map keyOf ys)"
    and "set xs = set ys"
  shows "xs = ys"
proof -
  let ?f = "\<lambda>r. keyTriple (keyOf r)"
  have less: "Key_less = (\<lambda>a b. keyTriple a < keyTriple b)"
    by (intro ext) (simp add: Key_less_iff)
  have sx: "sorted_wrt (<) (map ?f xs)" and sy: "sorted_wrt (<) (map ?f ys)"
    using assms(1,2) unfolding less by (simp_all add: sorted_wrt_map)
  have "set (map ?f xs) = set (map ?f ys)"
    using assms(3) by simp
  with sy sx have eq: "map ?f xs = map ?f ys"
    by (rule strict_sorted_equal)
  have "distinct (map ?f xs)"
    using sx strict_sorted_iff by blast
  then have "inj_on ?f (set xs \<union> set ys)"
    using assms(3) by (simp add: distinct_map)
  with eq show ?thesis
    by (simp add: inj_on_map_eq_map)
qed

lemma BcmRouteTable_toFollyDynamic_eq:
  "BcmRouteTable_toFollyDynamic str fas fib
     = DObject [(''routes'', DArray (map (BcmRoute_toFollyDynamic str fas) (map snd fib)))]"
  by (simp add: BcmRouteTable_toFollyDynamic_def dyn_set_def kRoutes_def comp_def)

text \<open>
  C6, as amended. In every route table that can come about, the serialised table lists
  the routes in the order of the table's keys, which is ascending by VRF, then by mask
  length, then by network address; two tables that can come about and hold the same
  routes have the same serialisation.
\<close>

theorem C6_routes_sorted_by_vrf_mask_network:
  assumes "reachableTable D (hw, fib)"
  shows "BcmRouteTable_toFollyDynamic str fas fib
           = DObject [(''routes'', DArray (map (BcmRoute_toFollyDynamic str fas) (map snd fib)))]
     \<and> sorted_wrt Key_less (map keyOf (map snd fib))
     \<and> sorted_wrt (\<lambda>r r'. (route_vrf r, route_len r, route_prefix r)
                            < (route_vrf r', route_len r', route_prefix r')) (map snd fib)
     \<and> (\<forall>hw' fib'. reachableTable D (hw', fib') \<and> set (map snd fib') = set (map snd fib)
           \<longrightarrow> BcmRouteTable_toFollyDynamic str fas fib' = BcmRouteTable_toFollyDynamic str fas fib)"
proof -
  have ok: "fibOk fib"
    using reachableTable_fibOk [OF assms] by simp
  then have s: "sorted_wrt Key_less (map keyOf (map snd fib))"
    unfolding fibOk_keys [OF ok] by (simp add: fibOk_def)
  then have t: "sorted_wrt (\<lambda>r r'. (route_vrf r, route_len r, route_prefix r)
                            < (route_vrf r', route_len r', route_prefix r')) (map snd fib)"
    by (simp add: sorted_wrt_map Key_less_iff keyTriple_def keyOf_def)
  have u: "BcmRouteTable_toFollyDynamic str fas fib' = BcmRouteTable_toFollyDynamic str fas fib"
    if "reachableTable D (hw', fib')" and "set (map snd fib') = set (map snd fib)" for hw' fib'
  proof -
    have ok': "fibOk fib'"
      using reachableTable_fibOk [OF that(1)] by simp
    then have "sorted_wrt Key_less (map keyOf (map snd fib'))"
      unfolding fibOk_keys [OF ok'] by (simp add: fibOk_def)
    with s that(2) have "map snd fib' = map snd fib"
      by (intro sorted_routes_unique)
    then show ?thesis
      by (simp add: BcmRouteTable_toFollyDynamic_eq)
  qed
  from s t u BcmRouteTable_toFollyDynamic_eq [of str fas fib] show ?thesis
    by blast
qed

lemma step1:
  "BcmRouteTable_addRoute bdeps0 (\<lambda>a. a) 0 hwRoute10 (hw0, []) =
     Inr (hw0\<lparr>multiPathNextHopTable := [((0, [hop1\<lparr>weight := 1\<rparr>]), (group1, 1))]\<rparr>,
          [(\<lparr>key_network = 0x0a000000, key_mask = 24, key_vrf = 0\<rparr>,
       \<lparr>route_vrf = 0, route_prefix = 0x0a000000, route_len = 24,
        route_fwd = RouteNextHopEntry_nhops [hop1\<lparr>weight := 1\<rparr>] 20,
        route_added = True, route_egressId = 100001,
        route_nextHopHostReference = Some (0, [hop1\<lparr>weight := 1\<rparr>])\<rparr>)])"
  by (simp add: BcmRouteTable_addRoute_def BcmRouteTable_addRouteAt_def hwRoute10_def hw0_def
      bdeps0_def BcmRoute_new_def program_def referenceOrEmplaceNextHop_def
      BcmMultiPathNextHop_new_def getEgressId_def RouteNextHopEntry_nhops_def
      RouteNextHopEntry_action_def hop1_def group1_def Let_def)


lemma step2:
  "BcmRouteTable_addRoute bdeps0 (\<lambda>a. a) 0 hwRoute9
     (hw0\<lparr>multiPathNextHopTable := [((0, [hop1\<lparr>weight := 1\<rparr>]), (group1, 1))]\<rparr>,
          [(\<lparr>key_network = 0x0a000000, key_mask = 24, key_vrf = 0\<rparr>,
       \<lparr>route_vrf = 0, route_prefix = 0x0a000000, route_len = 24,
        route_fwd = RouteNextHopEntry_nhops [hop1\<lparr>weight := 1\<rparr>] 20,
        route_added = True, route_egressId = 100001,
        route_nextHopHostReference = Some (0, [hop1\<lparr>weight := 1\<rparr>])\<rparr>)]) =
     Inr (hw0\<lparr>multiPathNextHopTable := [((0, [hop1\<lparr>weight := 1\<rparr>]), (group1, 1))]\<rparr>, tl fibAfter)"
  by (simp add: BcmRouteTable_addRoute_def BcmRouteTable_addRouteAt_def hwRoute9_def hw0_def
      bdeps0_def BcmRoute_new_def program_def Key_less_def fibAfter_def
      RouteNextHopEntry_nhops_def RouteNextHopEntry_action_def hop1_def group1_def Let_def)

lemma step3:
  "BcmRouteTable_addRoute bdeps0 (\<lambda>a. a) 0 hwRoute102
     (hw0\<lparr>multiPathNextHopTable := [((0, [hop1\<lparr>weight := 1\<rparr>]), (group1, 1))]\<rparr>, tl fibAfter) =
     Inr (hwAfter, fibAfter)"
  by (simp add: BcmRouteTable_addRoute_def BcmRouteTable_addRouteAt_def hwRoute102_def hw0_def
      bdeps0_def BcmRoute_new_def program_def Key_less_def fibAfter_def hwAfter_def
      referenceOrEmplaceNextHop_def BcmMultiPathNextHop_new_def getEgressId_def
      RouteNextHopEntry_nhops_def RouteNextHopEntry_action_def hop1_def hop2_def group1_def
      group2_def Let_def)

lemma tableAfter_eq: "tableAfter = Inr (hwAfter, fibAfter)"
  by (simp only: tableAfter_def step1 step2 step3 sum.case)

lemma reachable_tableAfter: "reachableTable bdeps0 (hwAfter, fibAfter)"
proof -
  have "reachableTable bdeps0 (hw0, [])"
    by (rule reachableTable.start)
  from reachableTable.add [OF this step1 [unfolded BcmRouteTable_addRoute_def]]
  have "reachableTable bdeps0
     (hw0\<lparr>multiPathNextHopTable := [((0, [hop1\<lparr>weight := 1\<rparr>]), (group1, 1))]\<rparr>,
          [(\<lparr>key_network = 0x0a000000, key_mask = 24, key_vrf = 0\<rparr>,
       \<lparr>route_vrf = 0, route_prefix = 0x0a000000, route_len = 24,
        route_fwd = RouteNextHopEntry_nhops [hop1\<lparr>weight := 1\<rparr>] 20,
        route_added = True, route_egressId = 100001,
        route_nextHopHostReference = Some (0, [hop1\<lparr>weight := 1\<rparr>])\<rparr>)])" .
  from reachableTable.add [OF this step2 [unfolded BcmRouteTable_addRoute_def]]
  have "reachableTable bdeps0
     (hw0\<lparr>multiPathNextHopTable := [((0, [hop1\<lparr>weight := 1\<rparr>]), (group1, 1))]\<rparr>, tl fibAfter)" .
  from reachableTable.add [OF this step3 [unfolded BcmRouteTable_addRoute_def]]
  show ?thesis .
qed

lemma json_fibAfter:
  "BcmRouteTable_toFollyDynamic str0 forwardActionStr0 fibAfter =
     DObject [(''routes'', DArray
       [DObject [(''network'', DString ''10.2.0.0''), (''maskLen'', DInt 16),
                 (''action'', DString ''Nexthops''), (''ecmp'', DBool True),
                 (''ecmpEgressId'', DInt 200256)],
        DObject [(''network'', DString ''10.0.0.0''), (''maskLen'', DInt 24),
                 (''action'', DString ''Nexthops''), (''ecmp'', DBool False),
                 (''egressId'', DInt 100001)],
        DObject [(''network'', DString ''9.0.0.0''), (''maskLen'', DInt 25),
                 (''action'', DString ''Drop''), (''ecmp'', DBool False),
                 (''egressId'', DInt 100000)]])]"
  by (simp add: BcmRouteTable_toFollyDynamic_def BcmRoute_toFollyDynamic_def dyn_set_def
      fibAfter_def str0_def forwardActionStr0_def kRoutes_def kNetwork_def kMaskLen_def
      kAction_def kEcmp_def kEgressId_def kEcmpEgressId_def RouteNextHopEntry_nhops_def
      RouteNextHopEntry_action_def)

text \<open>
  The claim as written fails for the order: the table with 10.0.0.0/24, 9.0.0.0/25 and
  10.2.0.0/16 is serialised with 10.2.0.0/16 first and 9.0.0.0/25 last, which is not
  ascending by network address and then mask length.
\<close>

theorem C6_not_sorted_by_network_then_mask_counterexample:
  "tableAfter = Inr (hwAfter, fibAfter)
   \<and> BcmRouteTable_toFollyDynamic str0 forwardActionStr0 fibAfter =
     DObject [(''routes'', DArray
       [DObject [(''network'', DString ''10.2.0.0''), (''maskLen'', DInt 16),
                 (''action'', DString ''Nexthops''), (''ecmp'', DBool True),
                 (''ecmpEgressId'', DInt 200256)],
        DObject [(''network'', DString ''10.0.0.0''), (''maskLen'', DInt 24),
                 (''action'', DString ''Nexthops''), (''ecmp'', DBool False),
                 (''egressId'', DInt 100001)],
        DObject [(''network'', DString ''9.0.0.0''), (''maskLen'', DInt 25),
                 (''action'', DString ''Drop''), (''ecmp'', DBool False),
                 (''egressId'', DInt 100000)]])]
   \<and> map (\<lambda>r. (route_prefix r, route_len r)) (map snd fibAfter)
       = [(0x0a020000, 16), (0x0a000000, 24), (0x09000000, 25)]
   \<and> \<not> sorted_wrt (\<lambda>a b. a \<le> b)
          [(0x0a020000 :: 32 word, 16 :: 8 word), (0x0a000000, 24), (0x09000000, 25)]"
proof -
  have m: "map (\<lambda>r. (route_prefix r, route_len r)) (map snd fibAfter)
       = [(0x0a020000, 16), (0x0a000000, 24), (0x09000000, 25)]"
    by (simp add: fibAfter_def)
  have n: "\<not> sorted_wrt (\<lambda>a b. a \<le> b)
          [(0x0a020000 :: 32 word, 16 :: 8 word), (0x0a000000, 24), (0x09000000, 25)]"
    by (simp add: less_eq_prod_def)
  from tableAfter_eq json_fibAfter m n show ?thesis by blast
qed


lemma collectPaths_eq:
  "collectPaths D vrf fwd (paths, nexthops)
     = (paths @ concat (map (\<lambda>nhop. replicate (weight nhop) (nextHopEgressId D vrf nhop)) fwd),
        nexthops @ map (nextHopEgressId D vrf) fwd)"
  by (induction fwd arbitrary: paths nexthops) simp_all

lemma length_paths:
  "length (concat (map (\<lambda>nhop. replicate (weight nhop) (f nhop)) fwd)) = sum_list (map weight fwd)"
  by (induction fwd) simp_all

lemma BcmMultiPathNextHop_new_Inr:
  assumes "BcmMultiPathNextHop_new D (vrf, fwd) = Inr mp"
  shows "fwd \<noteq> [] \<and> mp_fwd mp = fwd \<and> mp_nexthops mp = map (nextHopEgressId D vrf) fwd
     \<and> (mp_ecmpEgress mp \<noteq> None) = (sum_list (map weight fwd) > 1)"
  using assms
  by (auto simp add: BcmMultiPathNextHop_new_def collectPaths_eq length_paths split: if_splits)

lemma tableOk_update:
  assumes "tableOk D tbl" and "BcmMultiPathNextHop_new D key = Inr mp" and "1 \<le> n"
  shows "tableOk D (AList.update key (mp, n) tbl)"
proof -
  have "set (AList.update key (mp, n) tbl) \<subseteq> insert (key, (mp, n)) (set tbl)"
    by (induction tbl) auto
  with assms show ?thesis
    by (auto simp add: tableOk_def)
qed

lemma tableOk_delete:
  assumes "tableOk D tbl"
  shows "tableOk D (AList.delete key tbl)"
proof -
  have "set (AList.delete key tbl) \<subseteq> set tbl"
    by (induction tbl) auto
  with assms show ?thesis
    by (auto simp add: tableOk_def)
qed

lemma tableOk_map_of:
  assumes "tableOk D tbl" and "map_of tbl key = Some (mp, n)"
  shows "BcmMultiPathNextHop_new D key = Inr mp \<and> 1 \<le> n"
  using assms map_of_SomeD [OF assms(2)]
  by (auto simp add: tableOk_def)

lemma referenceOrEmplaceNextHop_ok:
  assumes "tableOk D tbl" and "referenceOrEmplaceNextHop D key tbl = Inr (mp, tbl')"
  shows "BcmMultiPathNextHop_new D key = Inr mp \<and> tableOk D tbl'
     \<and> (\<exists>n. map_of tbl' key = Some (mp, n) \<and> 1 \<le> n \<and> (map_of tbl key \<noteq> None \<longrightarrow> 2 \<le> n))
     \<and> (\<forall>k. k \<noteq> key \<longrightarrow> map_of tbl' k = map_of tbl k)"
proof (cases "map_of tbl key")
  case None
  with assms(2) have new: "BcmMultiPathNextHop_new D key = Inr mp"
    and t: "tbl' = AList.update key (mp, 1) tbl"
    by (auto simp add: referenceOrEmplaceNextHop_def split: sum.splits)
  show ?thesis
    using None new tableOk_update [OF assms(1) new, of 1]
    by (simp add: t update_conv')
next
  case (Some v)
  obtain m n where v: "v = (m, n)" by (cases v)
  with Some assms(2) have mp: "m = mp" and t: "tbl' = AList.update key (mp, Suc n) tbl"
    by (auto simp add: referenceOrEmplaceNextHop_def)
  have new: "BcmMultiPathNextHop_new D key = Inr mp" and n: "1 \<le> n"
    using tableOk_map_of [OF assms(1), of key mp n] Some v mp by auto
  show ?thesis
    using new n tableOk_update [OF assms(1) new, of "Suc n"]
    by (simp add: t update_conv')
qed

lemma releaseNextHop_ok:
  assumes "tableOk D tbl"
  shows "tableOk D (releaseNextHop old tbl)
     \<and> (\<forall>k. k \<noteq> old \<longrightarrow> map_of (releaseNextHop old tbl) k = map_of tbl k)
     \<and> (\<forall>mp n. map_of tbl old = Some (mp, n) \<and> 2 \<le> n \<longrightarrow>
           map_of (releaseNextHop old tbl) old = Some (mp, n - 1))"
proof (cases "map_of tbl old")
  case None
  with assms show ?thesis
    by (simp add: releaseNextHop_def)
next
  case (Some v)
  obtain mp n where v: "v = (mp, n)" by (cases v)
  have new: "BcmMultiPathNextHop_new D old = Inr mp" and n: "1 \<le> n"
    using tableOk_map_of [OF assms, of old mp n] Some v by auto
  show ?thesis
  proof (cases "n \<le> 1")
    case True
    with Some v tableOk_delete [OF assms, of old] show ?thesis
      by (simp add: releaseNextHop_def delete_conv')
  next
    case False
    then have "1 \<le> n - 1" by simp
    from tableOk_update [OF assms new this] False Some v show ?thesis
      by (simp add: releaseNextHop_def update_conv')
  qed
qed


lemma program_nexthops_unfold:
  assumes "getAction fwd = NEXTHOPS" and "\<not> (route_added r \<and> fwd = route_fwd r)"
    and "program D fwd (hw, r) = Inr (hw', r')"
  shows "\<exists>mp tbl egressId.
           getNextHopSet fwd \<noteq> []
         \<and> referenceOrEmplaceNextHop D (route_vrf r, getNextHopSet fwd) (multiPathNextHopTable hw)
             = Inr (mp, tbl)
         \<and> getEgressId D mp = Some egressId
         \<and> multiPathNextHopTable hw'
             = (case route_nextHopHostReference r of
                  None \<Rightarrow> tbl
                | Some old \<Rightarrow> releaseNextHop old tbl)
         \<and> route_egressId r' = egressId
         \<and> route_nextHopHostReference r' = Some (route_vrf r, getNextHopSet fwd)"
proof (cases "referenceOrEmplaceNextHop D (route_vrf r, getNextHopSet fwd) (multiPathNextHopTable hw)")
  case (Inl e)
  with assms show ?thesis
    by (auto simp add: program_def split: if_splits)
next
  case (Inr res)
  obtain mp tbl where res: "res = (mp, tbl)" by (cases res)
  show ?thesis
  proof (cases "getEgressId D mp")
    case None
    with assms Inr res show ?thesis
      by (auto simp add: program_def split: if_splits)
  next
    case (Some egressId)
    with assms Inr res show ?thesis
      by (cases "route_nextHopHostReference r")
         (auto simp add: program_def split: if_splits)
  qed
qed

text \<open>
  C4, as amended. Programming a route with action NEXTHOPS references the multipath
  next-hop table for the route's next-hop set, whatever its size: afterwards the table
  has the entry for that set, made by the constructor and referenced at least once. The
  entry has an ECMP egress object exactly when the weights of the next hops add up to
  more than one path. For a set of one next hop the route's egress is the egress
  identifier of that next hop; for a larger set it is the ECMP egress identifier.
\<close>

theorem C4_multipath_entry_for_every_group:
  assumes "tableOk D (multiPathNextHopTable hw)"
    and "\<forall>old. route_nextHopHostReference r = Some old
               \<longrightarrow> map_of (multiPathNextHopTable hw) old \<noteq> None"
    and "getAction fwd = NEXTHOPS"
    and "\<not> (route_added r \<and> fwd = route_fwd r)"
    and "program D fwd (hw, r) = Inr (hw', r')"
  shows "\<exists>mp n. map_of (multiPathNextHopTable hw') (route_vrf r, getNextHopSet fwd) = Some (mp, n)
           \<and> 1 \<le> n
           \<and> BcmMultiPathNextHop_new D (route_vrf r, getNextHopSet fwd) = Inr mp
           \<and> mp_nexthops mp = map (nextHopEgressId D (route_vrf r)) (getNextHopSet fwd)
           \<and> (mp_ecmpEgress mp \<noteq> None) = (sum_list (map weight (getNextHopSet fwd)) > 1)
           \<and> route_nextHopHostReference r' = Some (route_vrf r, getNextHopSet fwd)
           \<and> (\<forall>nh. getNextHopSet fwd = [nh]
                 \<longrightarrow> route_egressId r' = nextHopEgressId D (route_vrf r) nh)
           \<and> (length (getNextHopSet fwd) > 1 \<longrightarrow> route_egressId r' = getEcmpEgressId D mp)
           \<and> tableOk D (multiPathNextHopTable hw')"
proof -
  let ?key = "(route_vrf r, getNextHopSet fwd)"
  let ?tbl0 = "multiPathNextHopTable hw"
  from program_nexthops_unfold [OF assms(3,4,5)] obtain mp tbl egressId where
    ne: "getNextHopSet fwd \<noteq> []"
    and ref: "referenceOrEmplaceNextHop D ?key ?tbl0 = Inr (mp, tbl)"
    and eg: "getEgressId D mp = Some egressId"
    and tbl': "multiPathNextHopTable hw'
             = (case route_nextHopHostReference r of None \<Rightarrow> tbl | Some old \<Rightarrow> releaseNextHop old tbl)"
    and er: "route_egressId r' = egressId"
    and rr: "route_nextHopHostReference r' = Some ?key"
    by blast
  from referenceOrEmplaceNextHop_ok [OF assms(1) ref] obtain n where
    new: "BcmMultiPathNextHop_new D ?key = Inr mp" and ok1: "tableOk D tbl"
    and at: "map_of tbl ?key = Some (mp, n)" and n1: "1 \<le> n"
    and n2: "map_of ?tbl0 ?key \<noteq> None \<longrightarrow> 2 \<le> n"
    by blast
  from BcmMultiPathNextHop_new_Inr [OF new] have
    hops: "mp_nexthops mp = map (nextHopEgressId D (route_vrf r)) (getNextHopSet fwd)"
    and ecmp: "(mp_ecmpEgress mp \<noteq> None) = (sum_list (map weight (getNextHopSet fwd)) > 1)"
    by simp_all
  have single: "route_egressId r' = nextHopEgressId D (route_vrf r) nh"
    if "getNextHopSet fwd = [nh]" for nh
    using eg er hops that by (simp add: getEgressId_def)
  have multi: "route_egressId r' = getEcmpEgressId D mp" if "length (getNextHopSet fwd) > 1"
    using eg er hops that by (simp add: getEgressId_def)
  have entry: "\<exists>m. map_of (multiPathNextHopTable hw') ?key = Some (mp, m) \<and> 1 \<le> m"
    and ok': "tableOk D (multiPathNextHopTable hw')"
  proof -
    show "\<exists>m. map_of (multiPathNextHopTable hw') ?key = Some (mp, m) \<and> 1 \<le> m"
    proof (cases "route_nextHopHostReference r")
      case None
      with tbl' at n1 show ?thesis by auto
    next
      case (Some old)
      show ?thesis
      proof (cases "old = ?key")
        case True
        with Some assms(2) n2 have "2 \<le> n" by auto
        with releaseNextHop_ok [OF ok1, of old] at True
        have "map_of (releaseNextHop old tbl) ?key = Some (mp, n - 1)" by auto
        with Some tbl' \<open>2 \<le> n\<close> show ?thesis by auto
      next
        case False
        with releaseNextHop_ok [OF ok1, of old]
        have "map_of (releaseNextHop old tbl) ?key = map_of tbl ?key" by auto
        with Some tbl' at n1 show ?thesis by auto
      qed
    qed
    show "tableOk D (multiPathNextHopTable hw')"
      using tbl' ok1 releaseNextHop_ok [OF ok1]
      by (cases "route_nextHopHostReference r") auto
  qed
  from entry new hops ecmp rr single multi ok' show ?thesis
    by blast
qed


lemma program_one: "program bdeps0 fwdOne (hw0, routeNew) = Inr (hwOne, routeOne)"
  by (simp add: program_def fwdOne_def routeNew_def hwOne_def routeOne_def hw0_def bdeps0_def
      BcmRoute_new_def referenceOrEmplaceNextHop_def BcmMultiPathNextHop_new_def getEgressId_def
      RouteNextHopEntry_nhops_def RouteNextHopEntry_action_def hop1_def group1_def Let_def)

theorem C4_multipath_entry_for_every_group_witness:
  "tableOk bdeps0 (multiPathNextHopTable hw0)
   \<and> route_nextHopHostReference routeNew = None
   \<and> getAction fwdOne = NEXTHOPS
   \<and> \<not> route_added routeNew
   \<and> program bdeps0 fwdOne (hw0, routeNew) = Inr (hwOne, routeOne)
   \<and> getNextHopSet fwdOne = [hop1\<lparr>weight := 1\<rparr>]
   \<and> (\<exists>mp n. map_of (multiPathNextHopTable hwOne) (0, [hop1\<lparr>weight := 1\<rparr>]) = Some (mp, n)
         \<and> mp_ecmpEgress mp = None)
   \<and> route_egressId routeOne = nextHopEgressId bdeps0 0 (hop1\<lparr>weight := 1\<rparr>)"
proof -
  have a1: "tableOk bdeps0 (multiPathNextHopTable hw0)"
    by (simp add: tableOk_def hw0_def)
  have a2: "\<forall>old. route_nextHopHostReference routeNew = Some old
               \<longrightarrow> map_of (multiPathNextHopTable hw0) old \<noteq> None"
    and n: "route_nextHopHostReference routeNew = None"
    by (simp_all add: routeNew_def BcmRoute_new_def)
  have a3: "getAction fwdOne = NEXTHOPS"
    by (simp add: fwdOne_def RouteNextHopEntry_nhops_def)
  have a4: "\<not> (route_added routeNew \<and> fwdOne = route_fwd routeNew)" and a: "\<not> route_added routeNew"
    by (simp_all add: routeNew_def BcmRoute_new_def)
  have v: "route_vrf routeNew = 0"
    by (simp add: routeNew_def BcmRoute_new_def)
  have h: "getNextHopSet fwdOne = [hop1\<lparr>weight := 1\<rparr>]"
    by (simp add: fwdOne_def RouteNextHopEntry_nhops_def)
  have w: "sum_list (map weight [hop1\<lparr>weight := 1\<rparr>]) = 1"
    by simp
  show ?thesis
    using C4_multipath_entry_for_every_group [OF a1 a2 a3 a4 program_one] a1 n a3 a program_one h
    unfolding v h w by auto
qed

text \<open>
  The claim as written fails for a group of size one: programming a route with a single
  next hop on a switch whose table is empty leaves the table with the entry of that
  group.
\<close>

theorem C4_entry_for_single_next_hop_counterexample:
  "multiPathNextHopTable hw0 = []
   \<and> getAction fwdOne = NEXTHOPS
   \<and> length (getNextHopSet fwdOne) = 1
   \<and> program bdeps0 fwdOne (hw0, routeNew) = Inr (hwOne, routeOne)
   \<and> multiPathNextHopTable hwOne = [((0, getNextHopSet fwdOne), (group1, 1))]"
  using program_one
  by (simp add: hw0_def hwOne_def fwdOne_def RouteNextHopEntry_nhops_def)

theorem C6_routes_sorted_by_vrf_mask_network_witness:
  "reachableTable bdeps0 (hwAfter, fibAfter)
   \<and> sorted_wrt Key_less (map keyOf (map snd fibAfter))
   \<and> map (\<lambda>r. (route_vrf r, route_len r, route_prefix r)) (map snd fibAfter)
       = [(0, 16, 0x0a020000), (0, 24, 0x0a000000), (0, 25, 0x09000000)]"
proof -
  have m: "map (\<lambda>r. (route_vrf r, route_len r, route_prefix r)) (map snd fibAfter)
       = [(0, 16, 0x0a020000), (0, 24, 0x0a000000), (0, 25, 0x09000000)]"
    by (simp add: fibAfter_def)
  show ?thesis
    using C6_routes_sorted_by_vrf_mask_network [OF reachable_tableAfter] reachable_tableAfter m
    by blast
qed

section \<open>Serialisation of a route\<close>

lemma BcmRoute_toFollyDynamic_ecmp:
  assumes "length (getNextHopSet (route_fwd r)) > 1"
  shows "BcmRoute_toFollyDynamic str fas r = DObject
           [(kNetwork, DString (str (route_prefix r))), (kMaskLen, DInt (uint (route_len r))),
            (kAction, DString (fas (getAction (route_fwd r)))), (kEcmp, DBool True),
            (kEcmpEgressId, DInt (route_egressId r))]"
  using assms
  by (simp add: BcmRoute_toFollyDynamic_def dyn_set_def kNetwork_def kMaskLen_def kAction_def
      kEcmp_def kEcmpEgressId_def)

lemma BcmRoute_toFollyDynamic_single:
  assumes "\<not> length (getNextHopSet (route_fwd r)) > 1"
  shows "BcmRoute_toFollyDynamic str fas r = DObject
           [(kNetwork, DString (str (route_prefix r))), (kMaskLen, DInt (uint (route_len r))),
            (kAction, DString (fas (getAction (route_fwd r)))), (kEcmp, DBool False),
            (kEgressId, DInt (route_egressId r))]"
  using assms
  by (simp add: BcmRoute_toFollyDynamic_def dyn_set_def kNetwork_def kMaskLen_def kAction_def
      kEcmp_def kEgressId_def)

text \<open>
  C7. The serialised object of a route always has the fields \<open>network\<close>, \<open>maskLen\<close> and
  \<open>action\<close>. When the forwarding next-hop set has more than one next hop it has
  \<open>ecmp = true\<close> and the key \<open>ecmpEgressId\<close> (and no key \<open>egressId\<close>); otherwise it has
  \<open>ecmp = false\<close> and the key \<open>egressId\<close> (and no key \<open>ecmpEgressId\<close>).
\<close>

theorem C7_route_json_fields:
  fixes r :: "'a BcmRoute" and str :: "'a \<Rightarrow> string" and fas :: "RouteForwardAction \<Rightarrow> string"
  defines "j \<equiv> BcmRoute_toFollyDynamic str fas r"
  shows "dyn_get j ''network'' = Some (DString (str (route_prefix r)))
       \<and> dyn_get j ''maskLen'' = Some (DInt (uint (route_len r)))
       \<and> dyn_get j ''action'' = Some (DString (fas (getAction (route_fwd r))))
       \<and> (if length (getNextHopSet (route_fwd r)) > 1
          then dyn_get j ''ecmp'' = Some (DBool True)
             \<and> dyn_get j ''ecmpEgressId'' = Some (DInt (route_egressId r))
             \<and> dyn_get j ''egressId'' = None
          else dyn_get j ''ecmp'' = Some (DBool False)
             \<and> dyn_get j ''egressId'' = Some (DInt (route_egressId r))
             \<and> dyn_get j ''ecmpEgressId'' = None)"
proof (cases "length (getNextHopSet (route_fwd r)) > 1")
  case True
  show ?thesis
    unfolding j_def BcmRoute_toFollyDynamic_ecmp [OF True]
    using True
    by (simp add: dyn_get_def kNetwork_def kMaskLen_def kAction_def kEcmp_def
        kEcmpEgressId_def)
next
  case False
  show ?thesis
    unfolding j_def BcmRoute_toFollyDynamic_single [OF False]
    using False
    by (simp add: dyn_get_def kNetwork_def kMaskLen_def kAction_def kEcmp_def
        kEgressId_def)
qed

theorem C7_route_json_fields_witness:
  "dyn_get (BcmRoute_toFollyDynamic (\<lambda>a. ''10.0.0.0'') (\<lambda>a. ''Nexthops'')
      \<lparr>route_vrf = 0, route_prefix = (167772160::nat), route_len = 24,
       route_fwd = RouteNextHopEntry_nhops
         [\<lparr>addr = 167772161, intf = 1, weight = 1\<rparr>, \<lparr>addr = 167772162, intf = 2, weight = 1\<rparr>] 10,
       route_added = True, route_egressId = 200256, route_nextHopHostReference = None\<rparr>)
     ''ecmpEgressId'' = Some (DInt 200256)
   \<and> dyn_get (BcmRoute_toFollyDynamic (\<lambda>a. ''10.0.0.0'') (\<lambda>a. ''Nexthops'')
      \<lparr>route_vrf = 0, route_prefix = (167772160::nat), route_len = 24,
       route_fwd = RouteNextHopEntry_nhops [\<lparr>addr = 167772161, intf = 1, weight = 1\<rparr>] 10,
       route_added = True, route_egressId = 100002, route_nextHopHostReference = None\<rparr>)
     ''egressId'' = Some (DInt 100002)"
  using C7_route_json_fields [of "\<lambda>a. ''10.0.0.0''" "\<lambda>a. ''Nexthops''"
      "\<lparr>route_vrf = 0, route_prefix = (167772160::nat), route_len = 24,
       route_fwd = RouteNextHopEntry_nhops
         [\<lparr>addr = 167772161, intf = 1, weight = 1\<rparr>, \<lparr>addr = 167772162, intf = 2, weight = 1\<rparr>] 10,
       route_added = True, route_egressId = 200256, route_nextHopHostReference = None\<rparr>"]
    C7_route_json_fields [of "\<lambda>a. ''10.0.0.0''" "\<lambda>a. ''Nexthops''"
      "\<lparr>route_vrf = 0, route_prefix = (167772160::nat), route_len = 24,
       route_fwd = RouteNextHopEntry_nhops [\<lparr>addr = 167772161, intf = 1, weight = 1\<rparr>] 10,
       route_added = True, route_egressId = 100002, route_nextHopHostReference = None\<rparr>"]
  by (simp add: RouteNextHopEntry_nhops_def)

end
